theory Spec2Isabelle
  imports Complex_Main "HOL-Library.Word"
begin

section \<open>Data model\<close>

text \<open>
  The module \<open>cflib/bootloader/__init__.py\<close> defines the class \<open>Bootloader\<close> and
  the two named tuples \<open>Target\<close> and \<open>FlashArtifact\<close>. Image contents are Python
  \<open>bytes\<close>, lengths and counters are Python integers.
\<close>

type_synonym bytes = "8 word list"

record Target =
  platform :: string
  target :: string
  type :: string

text \<open>The artifact's second field is called \<open>target\<close> in the source.\<close>

record FlashArtifact =
  content :: bytes
  target_of :: Target

text \<open>
  Modelled from the spec: the target geometry record kept by the protocol engine
  (\<open>cflib.bootloader.boottypes.Target\<close>, filled by \<open>cloader\<close>; neither module is
  among the sources). Section 3 of the specification lists its fields: the numeric id,
  the page size in bytes, the three page counts and the base address. The source field
  \<open>id\<close> is called \<open>id_code\<close> here.
\<close>

record geometry =
  id_code :: int
  page_size :: nat
  buffer_pages :: nat
  flash_pages :: nat
  start_page :: nat
  addr :: int

text \<open>
  Modelled from the spec: \<open>boottypes.TargetTypes\<close> (the two target ids and the
  translation between id and symbolic name) and \<open>boottypes.BootVersion\<close> (the three
  recognised protocol codes) are not among the sources; their constants are parameters.
  \<open>is_cf2(v)\<close> returns true only for the current variant.
\<close>

record TargetTypes =
  STM32 :: int
  NRF51 :: int
  to_string :: "int \<Rightarrow> string"
  from_string :: "string \<Rightarrow> int"

record BootVersion =
  CF1_PROTO_VER_0 :: int
  CF1_PROTO_VER_1 :: int
  CF2_PROTO_VER :: int

definition is_cf2 :: "BootVersion \<Rightarrow> int \<Rightarrow> bool" where
  "is_cf2 bv v = (v = CF2_PROTO_VER bv)"

text \<open>The record returned by the deck-memory manager for one deck.\<close>

record deck =
  name :: string
  is_started :: bool
  supports_fw_upgrade :: bool
  is_fw_upgrade_required :: bool
  is_bootloader_active :: bool

text \<open>
  Everything the bootloader does to the outside is recorded, in order, as an event:
  the calls of the progress callback, what is printed or logged, and each command
  handed to the protocol engine or to the application-mode client.
\<close>

datatype event =
    Progress_cb string int
  | Print string
  | Stdout_write string
  | Logger_info string
  | Upload_buffer int int int bytes
  | Write_flash int int int int
  | Reset_to_firmware int
  | Reset_to_bootloader int
  | Request_info_update int
  | Open_bootloader_uri "string option"
  | Scan_for_bootloader
  | Check_link_and_get_info
  | Cload_close
  | Cf_close_link
  | Sleep nat
  | Scf_open
  | Scf_close
  | Get_mems
  | Query_decks
  | Write_sync int int bytes

text \<open>
  What the collaborators answer is not determined by the bootloader. Each answer is a
  function of the events so far; between two questions of the same kind the bootloader
  always issues a further command, so the answers are independent of each other.
\<close>

record Cloader =
  link :: "event list \<Rightarrow> bool"
  scan_for_bootloader :: "event list \<Rightarrow> string option"
  reset_to_bootloader :: "event list \<Rightarrow> bool"
  check_link_and_get_info :: "event list \<Rightarrow> bool"
  cload_protocol_version :: "event list \<Rightarrow> int"
  cload_targets :: "event list \<Rightarrow> int \<rightharpoonup> geometry"
  write_flash :: "event list \<Rightarrow> bool"
  error_code :: "event list \<Rightarrow> int"

record Crazyflie =
  get_mems :: "event list \<Rightarrow> nat"
  query_decks :: "event list \<Rightarrow> (int \<times> deck) list"
  write_sync :: "event list \<Rightarrow> bool"

text \<open>
  The fields of \<open>Bootloader\<close> that its methods read or write. \<open>progress_cb\<close>
  tells whether a progress callback is installed (a call of it is the event
  \<open>Progress_cb\<close>); \<open>terminate_flashing_cb\<close> is the installed predicate, if any.
\<close>

record Bootloader =
  clink :: "string option"
  protocol_version :: int
  warm_booted :: bool
  progress_cb :: bool
  terminate_flashing_cb :: "(event list \<Rightarrow> bool) option"

datatype error =
    Exception string
  | ZeroDivisionError
  | KeyError
  | OSError

section \<open>Python arithmetic, slices and formatting\<close>

text \<open>
  \<open>int(a / b)\<close>: true division followed by truncation towards zero. The quotient
  and the running progress value are floats in the source; they are taken exactly here,
  as rationals. For operands below \<open>2^53\<close> the truncated quotient is the same.
  The progress value is a sum of floats in the source, one addend for each page, and the
  rounded sum can fall short of the exact one: twelve full pages add up to a float just
  below 100, reported as 99, where the exact sum taken here is 100. So the percent values
  of the model are those of the source only where the float sum is exact, as it is for
  the images that are evaluated below. The commands, their order and their arguments do
  not depend on the progress value, and no theorem stated for all images reads a percent
  value that the loop computes.
\<close>

definition trunc_div :: "int \<Rightarrow> int \<Rightarrow> int" where
  "trunc_div a b = sgn a * sgn b * (\<bar>a\<bar> div \<bar>b\<bar>)"

definition py_int :: "rat \<Rightarrow> int" where
  "py_int x = (if 0 \<le> x then \<lfloor>x\<rfloor> else \<lceil>x\<rceil>)"

text \<open>\<open>xs[a:b]\<close> and \<open>xs[a:]\<close> for indices that are not negative.\<close>

definition py_slice :: "'a list \<Rightarrow> nat \<Rightarrow> nat \<Rightarrow> 'a list" where
  "py_slice xs a b = take (b - a) (drop a xs)"

definition py_slice_from :: "'a list \<Rightarrow> nat \<Rightarrow> 'a list" where
  "py_slice_from xs a = drop a xs"

fun str_nat :: "nat \<Rightarrow> string" where
  "str_nat n =
     (if n < 10 then [''0123456789'' ! n]
      else str_nat (n div 10) @ [''0123456789'' ! (n mod 10)])"

declare str_nat.simps [simp del]

definition str_int :: "int \<Rightarrow> string" where
  "str_int i = (if i < 0 then CHR ''-'' # str_nat (nat (- i)) else str_nat (nat i))"

fun hex_nat :: "nat \<Rightarrow> string" where
  "hex_nat n =
     (if n < 16 then [''0123456789ABCDEF'' ! n]
      else hex_nat (n div 16) @ [''0123456789ABCDEF'' ! (n mod 16)])"

declare hex_nat.simps [simp del]

text \<open>The format \<open>{:X}\<close> of an integer.\<close>

definition format_X :: "int \<Rightarrow> string" where
  "format_X i = (if i < 0 then CHR ''-'' # hex_nat (nat (- i)) else hex_nat (nat i))"

section \<open>The flashing engine\<close>

definition msg_starting :: "int \<Rightarrow> int \<Rightarrow> string" where
  "msg_starting current_file_number total_files =
     ''Firmware ('' @ str_int current_file_number @ ''/'' @ str_int total_files @
     '') Starting...''"

definition msg_flashing :: "int \<Rightarrow> int \<Rightarrow> string \<Rightarrow> string \<Rightarrow> string" where
  "msg_flashing current_file_number total_files tname ttype =
     ''Flashing '' @ str_int current_file_number @ '' of '' @ str_int total_files @
     '' to '' @ tname @ '' ('' @ ttype @ ''): ''"

definition msg_bytes_pages :: "int \<Rightarrow> int \<Rightarrow> string" where
  "msg_bytes_pages b p = str_int b @ '' bytes ('' @ str_int p @ '' pages) ''"

definition msg_uploading :: "int \<Rightarrow> int \<Rightarrow> string \<Rightarrow> string" where
  "msg_uploading current_file_number total_files tname =
     ''Firmware ('' @ str_int current_file_number @ ''/'' @ str_int total_files @
     '') Uploading buffer to '' @ tname @ ''...''"

definition msg_writing :: "int \<Rightarrow> int \<Rightarrow> string \<Rightarrow> string" where
  "msg_writing current_file_number total_files tname =
     ''Firmware ('' @ str_int current_file_number @ ''/'' @ str_int total_files @
     '') Writing buffer to '' @ tname @ ''...''"

definition msg_flash_error :: "int \<Rightarrow> string" where
  "msg_flash_error code = ''Error during flash operation (code '' @ str_int code @ '')''"

definition msg_flash_error_print :: "int \<Rightarrow> string" where
  "msg_flash_error_print code =
     CHR 0x0A # ''Error during flash operation (code '' @ str_int code @
     ''). Maybe wrong radio link?''"

text \<open>\<open>self.terminate_flashing_cb and self.terminate_flashing_cb()\<close>\<close>

definition terminate_requested :: "Bootloader \<Rightarrow> event list \<Rightarrow> bool" where
  "terminate_requested self h =
     (case terminate_flashing_cb self of None \<Rightarrow> False | Some cb \<Rightarrow> cb h)"

text \<open>
  The report of a failed \<open>write_flash\<close>, which both the loop and the residual write
  make before raising \<open>Exception()\<close>.
\<close>

definition report_flash_error :: "Cloader \<Rightarrow> Bootloader \<Rightarrow> rat \<Rightarrow> event list \<Rightarrow> event list" where
  "report_flash_error cload self progress h =
     h @ [if progress_cb self
          then Progress_cb (msg_flash_error (error_code cload h)) (py_int progress)
          else Print (msg_flash_error_print (error_code cload h))]"

text \<open>
  The loop \<open>for i in range(...)\<close> of \<open>_internal_flash\<close>, over the page indices
  still to come. The loop state is the buffer counter \<open>ctr\<close>, the progress value and
  the events so far.
\<close>

fun page_loop ::
  "Cloader \<Rightarrow> TargetTypes \<Rightarrow> Bootloader \<Rightarrow> geometry \<Rightarrow> bytes \<Rightarrow> int \<Rightarrow> int \<Rightarrow> rat \<Rightarrow>
   nat list \<Rightarrow> nat \<Rightarrow> rat \<Rightarrow> event list \<Rightarrow> event list \<times> (error + nat \<times> rat)" where
  "page_loop cload tt self t_data img current_file_number total_files factor
       [] ctr progress h = (h, Inr (ctr, progress))"
| "page_loop cload tt self t_data img current_file_number total_files factor
       (i # rest) ctr progress h =
     (if terminate_requested self h then (h, Inl (Exception ''Flashing terminated''))
      else
        let h1 = h @ [if (i + 1) * page_size t_data > length img
                      then Upload_buffer (addr t_data) (int ctr) 0
                             (py_slice_from img (i * page_size t_data))
                      else Upload_buffer (addr t_data) (int ctr) 0
                             (py_slice img (i * page_size t_data)
                                ((i + 1) * page_size t_data))];
            ctr1 = ctr + 1;
            progress1 = (if progress_cb self then progress + factor else progress);
            h2 = h1 @ [if progress_cb self
                       then Progress_cb
                              (msg_uploading current_file_number total_files
                                 (to_string tt (id_code t_data)))
                              (py_int progress1)
                       else Stdout_write ''.'']
        in
          if ctr1 \<ge> buffer_pages t_data then
            let h3 = h2 @ [if progress_cb self
                           then Progress_cb
                                  (msg_writing current_file_number total_files
                                     (to_string tt (id_code t_data)))
                                  (py_int progress1)
                           else Stdout_write (str_int (int ctr1))];
                h4 = h3 @ [Write_flash (addr t_data) 0
                             (int (start_page t_data) + int i - (int ctr1 - 1))
                             (int ctr1)]
            in
              if \<not> write_flash cload h4
              then (report_flash_error cload self progress1 h4, Inl (Exception ''''))
              else page_loop cload tt self t_data img current_file_number total_files
                     factor rest 0 progress1 h4
          else page_loop cload tt self t_data img current_file_number total_files
                 factor rest ctr1 progress1 h2)"

text \<open>
  The code of \<open>_internal_flash\<close> after the loop: the write of the pages still in
  the buffer. \<open>last_page\<close> is \<open>int((len(image) - 1) / t_data.page_size)\<close>.
\<close>

definition residual_write ::
  "Cloader \<Rightarrow> TargetTypes \<Rightarrow> Bootloader \<Rightarrow> geometry \<Rightarrow> int \<Rightarrow> int \<Rightarrow> int \<Rightarrow>
   nat \<Rightarrow> rat \<Rightarrow> event list \<Rightarrow> event list \<times> (error + unit)" where
  "residual_write cload tt self t_data current_file_number total_files last_page
       ctr progress h =
     (if ctr > 0 then
        let h1 = h @ [if progress_cb self
                      then Progress_cb
                             (msg_writing current_file_number total_files
                                (to_string tt (id_code t_data)))
                             (py_int progress)
                      else Stdout_write (str_int (int ctr))];
            h2 = h1 @ [Write_flash (addr t_data) 0
                         (int (start_page t_data) + last_page - (int ctr - 1))
                         (int ctr)]
        in
          if \<not> write_flash cload h2
          then (report_flash_error cload self progress h2, Inl (Exception ''''))
          else (h2, Inr ())
      else (h, Inr ()))"

text \<open>
  \<open>_internal_flash\<close>. The target lookup raises \<open>KeyError\<close> for an unknown id, and
  the two divisions raise \<open>ZeroDivisionError\<close> for an empty image and for a page
  size of zero.
\<close>

definition internal_flash ::
  "Cloader \<Rightarrow> TargetTypes \<Rightarrow> Bootloader \<Rightarrow> FlashArtifact \<Rightarrow> int \<Rightarrow> int \<Rightarrow> event list \<Rightarrow>
   event list \<times> (error + unit)" where
  "internal_flash cload tt self artifact current_file_number total_files h =
     (case cload_targets cload h (from_string tt (target (target_of artifact))) of
        None \<Rightarrow> (h, Inl KeyError)
      | Some t_data \<Rightarrow>
          let img = content artifact in
          if length img = 0 then (h, Inl ZeroDivisionError)
          else
            let factor = (100 * of_nat (page_size t_data)) / of_nat (length img);
                progress = 0;
                h1 = h @ [if progress_cb self
                          then Progress_cb (msg_starting current_file_number total_files)
                                 (py_int progress)
                          else Stdout_write
                                 (msg_flashing current_file_number total_files
                                    (to_string tt (id_code t_data))
                                    (type (target_of artifact)))]
            in
              if int (length img) >
                   (int (flash_pages t_data) - int (start_page t_data)) *
                   int (page_size t_data)
              then (h1 @ [if progress_cb self
                          then Progress_cb
                                 ''Error: Not enough space to flash the image file.''
                                 (py_int progress)
                          else Print ''Error: Not enough space to flash the image file.''],
                    Inl (Exception ''Not enough space to flash the image file''))
              else if page_size t_data = 0 then (h1, Inl ZeroDivisionError)
              else
                let h2 = (if \<not> progress_cb self
                          then h1 @
                            [Logger_info
                               (msg_bytes_pages (int (length img) - 1)
                                  (trunc_div (int (length img)) (int (page_size t_data)) + 1)),
                             Stdout_write
                               (msg_bytes_pages (int (length img) - 1)
                                  (trunc_div (int (length img)) (int (page_size t_data)) + 1))]
                          else h1);
                    last_page = trunc_div (int (length img) - 1) (int (page_size t_data))
                in
                  (case page_loop cload tt self t_data img current_file_number total_files
                          factor [0 ..< nat (last_page + 1)] 0 progress h2 of
                     (h3, Inl e) \<Rightarrow> (h3, Inl e)
                   | (h3, Inr (ctr, progress1)) \<Rightarrow>
                       residual_write cload tt self t_data current_file_number total_files
                         last_page ctr progress1 h3))"

text \<open>\<open>_flash_flash\<close>: the loop over \<open>enumerate(artifacts)\<close>, from index \<open>i\<close> on.\<close>

fun flash_flash_from ::
  "Cloader \<Rightarrow> TargetTypes \<Rightarrow> Bootloader \<Rightarrow> nat \<Rightarrow> int \<Rightarrow> FlashArtifact list \<Rightarrow> event list \<Rightarrow>
   event list \<times> (error + unit)" where
  "flash_flash_from cload tt self i total_files [] h = (h, Inr ())"
| "flash_flash_from cload tt self i total_files (artifact # rest) h =
     (case internal_flash cload tt self artifact (int i + 1) total_files h of
        (h1, Inl e) \<Rightarrow> (h1, Inl e)
      | (h1, Inr u) \<Rightarrow> flash_flash_from cload tt self (i + 1) total_files rest h1)"

definition flash_flash ::
  "Cloader \<Rightarrow> TargetTypes \<Rightarrow> Bootloader \<Rightarrow> FlashArtifact list \<Rightarrow> Target list \<Rightarrow> event list \<Rightarrow>
   event list \<times> (error + unit)" where
  "flash_flash cload tt self artifacts targets h =
     flash_flash_from cload tt self 0 (int (length artifacts)) artifacts h"

section \<open>The session manager\<close>

definition get_platform_id :: "BootVersion \<Rightarrow> Bootloader \<Rightarrow> string" where
  "get_platform_id bv self =
     (if is_cf2 bv (protocol_version self) then ''cf2'' else ''cf1'')"

definition reset_to_firmware :: "Cloader \<Rightarrow> BootVersion \<Rightarrow> TargetTypes \<Rightarrow> event list \<Rightarrow> event list" where
  "reset_to_firmware cload bv tt h =
     (if cload_protocol_version cload h = CF2_PROTO_VER bv
      then h @ [Reset_to_firmware (NRF51 tt)]
      else h @ [Reset_to_firmware (STM32 tt)])"

definition close :: "event list \<Rightarrow> event list" where
  "close h = h @ [Cload_close]"

definition msg_protocol_not_supported :: "int \<Rightarrow> string" where
  "msg_protocol_not_supported v = ''Bootloader protocol 0x'' @ format_X v @ '' not supported!''"

text \<open>
  The first half of \<open>start_bootloader\<close>: entering the bootloader, warm or cold. The
  argument \<open>cf\<close> is \<open>None\<close> or tells whether the handle's link is open; a URI is
  true when it is a non-empty string.
\<close>

definition enter_bootloader ::
  "Cloader \<Rightarrow> TargetTypes \<Rightarrow> Bootloader \<Rightarrow> bool \<Rightarrow> bool option \<Rightarrow> event list \<Rightarrow>
   event list \<times> bool" where
  "enter_bootloader cload tt self warm_boot cf h =
     (if warm_boot then
        let h1 = (if cf = Some True then h @ [Cf_close_link] else h);
            h2 = h1 @ [Open_bootloader_uri (clink self)];
            h3 = h2 @ [Reset_to_bootloader (NRF51 tt)]
        in
          if reset_to_bootloader cload h3
          then (h3 @ [Check_link_and_get_info],
                check_link_and_get_info cload (h3 @ [Check_link_and_get_info]))
          else (h3, False)
      else if \<not> link cload h then
        let h1 = h @ [Scan_for_bootloader];
            uri = scan_for_bootloader cload h1;
            h2 = h1 @ [Sleep 1]
        in
          if uri \<noteq> None \<and> uri \<noteq> Some []
          then (h2 @ [Open_bootloader_uri uri, Check_link_and_get_info],
                check_link_and_get_info cload
                  (h2 @ [Open_bootloader_uri uri, Check_link_and_get_info]))
          else (h2, False)
      else (h, True))"

definition start_bootloader ::
  "Cloader \<Rightarrow> BootVersion \<Rightarrow> TargetTypes \<Rightarrow> Bootloader \<Rightarrow> bool \<Rightarrow> bool option \<Rightarrow> event list \<Rightarrow>
   event list \<times> Bootloader \<times> bool" where
  "start_bootloader cload bv tt self warm_boot cf h =
     (let self1 = self\<lparr>warm_booted := warm_boot\<rparr> in
      case enter_bootloader cload tt self1 warm_boot cf h of
        (h1, started) \<Rightarrow>
          if started then
            let self2 = self1\<lparr>protocol_version := cload_protocol_version cload h1\<rparr> in
            if protocol_version self2 = CF1_PROTO_VER_0 bv \<or>
               protocol_version self2 = CF1_PROTO_VER_1 bv
            then (h1, self2, started)
            else if protocol_version self2 = CF2_PROTO_VER bv
            then (h1 @ [Request_info_update (NRF51 tt)], self2, started)
            else (h1 @ [Print (msg_protocol_not_supported (protocol_version self2))],
                  self2, started)
          else (h1, self1, started))"

section \<open>The bundle reader\<close>

text \<open>
  The path given to \<open>flash\<close>: what \<open>open(filename, 'br').read()\<close>
  returns, \<open>None\<close> when no file can be opened there (\<open>open\<close> raises
  \<open>OSError\<close>), and, when \<open>zipfile.is_zipfile\<close> accepts the path, the
  archive; \<open>is_zipfile\<close> answers \<open>False\<close> for a path that cannot be
  opened. The archive has its members and,
  when the member \<open>manifest.json\<close> exists, the parsed manifest: the version and the
  entries of \<open>files\<close> in their order, each with its platform, target and type.
\<close>

record Manifest =
  version :: int
  files :: "(string \<times> Target) list"

record ZipFile =
  manifest_json :: "Manifest option"
  members :: "string \<rightharpoonup> bytes"

record source_file =
  raw :: "bytes option"
  as_zip :: "ZipFile option"

fun read_members :: "ZipFile \<Rightarrow> (string \<times> Target) list \<Rightarrow> error + FlashArtifact list" where
  "read_members zf [] = Inr []"
| "read_members zf ((file, metadata) # rest) =
     (case members zf file of
        None \<Rightarrow> Inl KeyError
      | Some c \<Rightarrow>
          (case read_members zf rest of
             Inl e \<Rightarrow> Inl e
           | Inr arts \<Rightarrow> Inr (\<lparr>content = c, target_of = metadata\<rparr> # arts)))"

definition get_flash_artifacts_from_zip :: "source_file \<Rightarrow> error + FlashArtifact list" where
  "get_flash_artifacts_from_zip filename =
     (case as_zip filename of
        None \<Rightarrow> Inr []
      | Some zf \<Rightarrow>
          (case manifest_json zf of
             None \<Rightarrow> Inl KeyError
           | Some manifest \<Rightarrow>
               if version manifest \<noteq> 1 then Inl (Exception ''Wrong manifest version'')
               else read_members zf (files manifest)))"

text \<open>The first part of \<open>flash\<close>: the artifacts of the file, or the file as one artifact.\<close>

definition fetch_artifacts :: "source_file \<Rightarrow> Target list \<Rightarrow> error + FlashArtifact list" where
  "fetch_artifacts filename targets =
     (case get_flash_artifacts_from_zip filename of
        Inl e \<Rightarrow> Inl e
      | Inr artifacts \<Rightarrow>
          if length artifacts = 0 then
            if length targets = 1
            then (case raw filename of
                    None \<Rightarrow> Inl OSError
                  | Some c \<Rightarrow> Inr [\<lparr>content = c, target_of = targets ! 0\<rparr>])
            else Inl (Exception ''Cannot flash a .bin to more than one target!'')
          else Inr artifacts)"

section \<open>The deck pipeline\<close>

text \<open>
  The loop \<open>while not deck.is_started\<close> of \<open>_flash_deck\<close> has no bound in the
  source. It runs here for at most the given number of rounds; the result \<open>None\<close>
  says that the deck had not started by then.
\<close>

fun wait_started ::
  "nat \<Rightarrow> Crazyflie \<Rightarrow> int \<Rightarrow> deck \<Rightarrow> event list \<Rightarrow> event list \<times> (error + deck) option" where
  "wait_started 0 app deck_index d h =
     (if is_started d then (h, Some (Inr d)) else (h, None))"
| "wait_started (Suc rounds) app deck_index d h =
     (if is_started d then (h, Some (Inr d))
      else
        let h1 = h @ [Print ''Deck not yet started ...'', Sleep 500, Query_decks]
        in case map_of (query_decks app h1) deck_index of
             None \<Rightarrow> (h1, Some (Inl KeyError))
           | Some d1 \<Rightarrow> wait_started rounds app deck_index d1 h1)"

definition deck_fw :: "string \<Rightarrow> Target" where
  "deck_fw deck_name = \<lparr>platform = ''deck'', target = deck_name, type = ''fw''\<rparr>"

text \<open>The loop \<open>for (deck_index, deck) in decks.items()\<close>.\<close>

fun deck_loop ::
  "nat \<Rightarrow> Crazyflie \<Rightarrow> Bootloader \<Rightarrow> FlashArtifact list \<Rightarrow> Target list \<Rightarrow> bool \<Rightarrow>
   (int \<times> deck) list \<Rightarrow> event list \<Rightarrow> event list \<times> (error + unit) option" where
  "deck_loop rounds app self artifacts targets flash_all_targets [] h = (h, Some (Inr ()))"
| "deck_loop rounds app self artifacts targets flash_all_targets ((deck_index, d) # rest) h =
     (if terminate_requested self h then (h, Some (Inl (Exception ''Flashing terminated'')))
      else
        let deck_target = filter (\<lambda>t. t = deck_fw (name d)) targets in
        if (\<not> flash_all_targets) \<and> length deck_target = 0
        then deck_loop rounds app self artifacts targets flash_all_targets rest
               (h @ [Print (''Skipping '' @ name d)])
        else
          let deck_artifacts = filter (\<lambda>a. target_of a = deck_fw (name d)) artifacts in
          if length deck_artifacts = 0
          then deck_loop rounds app self artifacts targets flash_all_targets rest
                 (h @ [Print (''Skipping '' @ name d @ '', no artifact for it in the .zip'')])
          else
            let deck_artifact = deck_artifacts ! 0;
                h1 = (if progress_cb self
                      then h @ [Progress_cb (''Updating deck '' @ name d) 50] else h);
                h2 = h1 @ [Print (''Handling '' @ name d)]
            in
              (case wait_started rounds app deck_index d h2 of
                 (h3, None) \<Rightarrow> (h3, None)
               | (h3, Some (Inl e)) \<Rightarrow> (h3, Some (Inl e))
               | (h3, Some (Inr d1)) \<Rightarrow>
                   if \<not> supports_fw_upgrade d1
                   then deck_loop rounds app self artifacts targets flash_all_targets rest
                          (h3 @ [Print (''Deck '' @ name d1 @
                                   '' does not support firmware update, skipping!'')])
                   else if \<not> is_fw_upgrade_required d1
                   then deck_loop rounds app self artifacts targets flash_all_targets rest
                          (h3 @ [Print (''Deck '' @ name d1 @ '' firmware up to date, skipping'')])
                   else if \<not> is_bootloader_active d1
                   then deck_loop rounds app self artifacts targets flash_all_targets rest
                          (h3 @ [Print (''Error: Deck '' @ name d1 @
                                   '' bootloader not active, skipping!'')])
                   else
                     let h4 = h3 @ [Write_sync deck_index 0 (content deck_artifact)] in
                     if write_sync app h4
                     then deck_loop rounds app self artifacts targets flash_all_targets rest
                            (if progress_cb self
                             then h4 @ [Progress_cb
                                          (''Deck '' @ name d1 @ '' updated succesfully!'') 75]
                             else h4)
                     else ((if progress_cb self
                            then h4 @ [Progress_cb (''Failed to update deck '' @ name d1) 0]
                            else h4),
                           Some (Inl (Exception (''Failed to update deck '' @ name d1))))))"

text \<open>
  \<open>_flash_deck\<close>. Entering and leaving the \<open>with SyncCrazyflie\<close> block are the
  events \<open>Scf_open\<close> and \<open>Scf_close\<close>.
\<close>

definition flash_deck ::
  "nat \<Rightarrow> Crazyflie \<Rightarrow> Bootloader \<Rightarrow> FlashArtifact list \<Rightarrow> Target list \<Rightarrow> event list \<Rightarrow>
   event list \<times> (error + unit) option" where
  "flash_deck rounds app self artifacts targets h =
     (let flash_all_targets = (length targets = 0);
          h1 = (if progress_cb self
                then h @ [Progress_cb ''Detecting deck to be updated'' 25] else h);
          h2 = h1 @ [Scf_open, Get_mems];
          deck_mems_count = get_mems app h2
      in
        if deck_mems_count = 0 then (h2 @ [Scf_close], Some (Inr ()))
        else
          let h3 = h2 @ [Query_decks];
              decks = query_decks app h3
          in case deck_loop rounds app self artifacts targets flash_all_targets decks h3 of
               (h4, None) \<Rightarrow> (h4, None)
             | (h4, Some r) \<Rightarrow> (h4 @ [Scf_close], Some r))"

section \<open>The upgrade\<close>

text \<open>
  The part of \<open>flash\<close> headed \<open>Flash the decks\<close>. It returns the text of
  \<open>deck_update_msg\<close>.
\<close>

definition update_decks ::
  "nat \<Rightarrow> Cloader \<Rightarrow> Crazyflie \<Rightarrow> BootVersion \<Rightarrow> TargetTypes \<Rightarrow> Bootloader \<Rightarrow>
   FlashArtifact list \<Rightarrow> Target list \<Rightarrow> Target list \<Rightarrow> bool option \<Rightarrow> event list \<Rightarrow>
   event list \<times> Bootloader \<times> (error + string) option" where
  "update_decks rounds cload app bv tt self deck_artifacts deck_targets targets cf h =
     (if length targets = 0 \<or> length deck_targets > 0 then
        if warm_booted self then
          let h1 = (if progress_cb self
                    then h @ [Progress_cb ''Restarting firmware to update decks.'' 0] else h);
              h2 = reset_to_firmware cload bv tt h1;
              h3 = close h2;
              h4 = h3 @ [Sleep 3]
          in
            (case flash_deck rounds app self deck_artifacts deck_targets h4 of
               (h5, None) \<Rightarrow> (h5, self, None)
             | (h5, Some (Inl e)) \<Rightarrow> (h5, self, Some (Inl e))
             | (h5, Some (Inr u)) \<Rightarrow>
                 let h6 = (if progress_cb self
                           then h5 @ [Progress_cb ''Deck updated! Restarting firmware.'' 100]
                           else h5)
                 in case start_bootloader cload bv tt self True cf h6 of
                      (h7, self1, started) \<Rightarrow> (h7, self1, Some (Inr ''Deck update complete.'')))
        else (h @ [Print ''Skipping updating deck on coldboot''], self,
              Some (Inr ''Deck update skipped in ColdBoot mode.''))
      else (h, self, Some (Inr ''Deck update skipped.'')))"

definition msg_flashing_done :: "int \<Rightarrow> string \<Rightarrow> string" where
  "msg_flashing_done n deck_update_msg =
     ''('' @ str_int n @ ''/'' @ str_int n @ '') Flashing done! '' @ deck_update_msg"

text \<open>The part of \<open>flash\<close> after the artifacts have been fetched.\<close>

definition flash_with_artifacts ::
  "nat \<Rightarrow> Cloader \<Rightarrow> Crazyflie \<Rightarrow> BootVersion \<Rightarrow> TargetTypes \<Rightarrow> Bootloader \<Rightarrow>
   FlashArtifact list \<Rightarrow> Target list \<Rightarrow> bool option \<Rightarrow> event list \<Rightarrow>
   event list \<times> Bootloader \<times> (error + unit) option" where
  "flash_with_artifacts rounds cload app bv tt self artifacts targets cf h =
     (let platform_id = get_platform_id bv self;
          flash_targets = filter (\<lambda>t. platform t = platform_id) targets;
          deck_targets = filter (\<lambda>t. platform t = ''deck'') targets;
          flash_artifacts = filter (\<lambda>a. platform (target_of a) = platform_id) artifacts;
          deck_artifacts = filter (\<lambda>a. platform (target_of a) = ''deck'') artifacts
      in
        case (if length targets = 0 \<or> length flash_targets > 0
              then flash_flash cload tt self flash_artifacts flash_targets h
              else (h, Inr ())) of
          (h1, Inl e) \<Rightarrow> (h1, self, Some (Inl e))
        | (h1, Inr u) \<Rightarrow>
            (case update_decks rounds cload app bv tt self deck_artifacts deck_targets
                    targets cf h1 of
               (h2, self1, None) \<Rightarrow> (h2, self1, None)
             | (h2, self1, Some (Inl e)) \<Rightarrow> (h2, self1, Some (Inl e))
             | (h2, self1, Some (Inr deck_update_msg)) \<Rightarrow>
                 (h2 @ [if progress_cb self1
                        then Progress_cb
                               (msg_flashing_done (int (length flash_artifacts)) deck_update_msg)
                               100
                        else Print ''''],
                  self1, Some (Inr ()))))"

definition flash ::
  "nat \<Rightarrow> Cloader \<Rightarrow> Crazyflie \<Rightarrow> BootVersion \<Rightarrow> TargetTypes \<Rightarrow> Bootloader \<Rightarrow>
   source_file \<Rightarrow> Target list \<Rightarrow> bool option \<Rightarrow> event list \<Rightarrow>
   event list \<times> Bootloader \<times> (error + unit) option" where
  "flash rounds cload app bv tt self filename targets cf h =
     (case fetch_artifacts filename targets of
        Inl e \<Rightarrow> (h, self, Some (Inl e))
      | Inr artifacts \<Rightarrow>
          flash_with_artifacts rounds cload app bv tt self artifacts targets cf h)"

section \<open>Observations on the events\<close>

text \<open>
  The kinds of events: the two commands of the flashing engine, and what is reported
  (to the progress callback, by printing, on standard output or in the log).
\<close>

fun is_upload :: "event \<Rightarrow> bool" where
  "is_upload (Upload_buffer a b c d) = True"
| "is_upload e = False"

fun is_write_flash :: "event \<Rightarrow> bool" where
  "is_write_flash (Write_flash a b c d) = True"
| "is_write_flash e = False"

fun is_report :: "event \<Rightarrow> bool" where
  "is_report (Progress_cb m p) = True"
| "is_report (Print m) = True"
| "is_report (Stdout_write m) = True"
| "is_report (Logger_info m) = True"
| "is_report e = False"

text \<open>
  A function that takes the events so far returns them extended; \<open>new_events\<close> are
  the events it added. \<open>uploads\<close> counts the \<open>upload_buffer\<close> commands among them.
\<close>

definition new_events :: "event list \<Rightarrow> event list \<Rightarrow> event list" where
  "new_events h h1 = drop (length h) h1"

definition uploads :: "event list \<Rightarrow> nat" where
  "uploads es = length (filter is_upload es)"

text \<open>
  The page count \<open>ceil(len / page_size)\<close> of an image.
\<close>

definition page_count :: "nat \<Rightarrow> nat \<Rightarrow> nat" where
  "page_count len ps = (len + ps - 1) div ps"

text \<open>
  The pages a \<open>write_flash\<close> command programs, \<open>num_pages\<close> pages from its
  destination on; the pages, the destinations and the page counts of the commands in a
  list of events, in the order of the commands.
\<close>

fun pages_of :: "event \<Rightarrow> int list" where
  "pages_of (Write_flash a b d n) = [d .. d + n - 1]"
| "pages_of e = []"

definition pages_written :: "event list \<Rightarrow> int list" where
  "pages_written es = concat (map pages_of es)"

fun write_dest :: "event \<Rightarrow> int list" where
  "write_dest (Write_flash a b d n) = [d]"
| "write_dest e = []"

definition write_dests :: "event list \<Rightarrow> int list" where
  "write_dests es = concat (map write_dest es)"

fun write_count :: "event \<Rightarrow> int list" where
  "write_count (Write_flash a b d n) = [n]"
| "write_count e = []"

definition write_counts :: "event list \<Rightarrow> int list" where
  "write_counts es = concat (map write_count es)"

text \<open>
  \<open>dests_ok start_page u es\<close>: every \<open>write_flash\<close> in \<open>es\<close> of \<open>n\<close> pages has
  the destination \<open>start_page + k - (n - 1)\<close>, where \<open>k = u' - 1\<close> is the index of
  the page uploaded last and \<open>u'\<close>, the number of uploads so far, starts at \<open>u\<close>.
\<close>

fun dests_ok :: "int \<Rightarrow> int \<Rightarrow> event list \<Rightarrow> bool" where
  "dests_ok sp u [] = True"
| "dests_ok sp u (Upload_buffer a b c d # es) = dests_ok sp (u + 1) es"
| "dests_ok sp u (Write_flash a b d n # es) = (d = sp + (u - 1) - (n - 1) \<and> dests_ok sp u es)"
| "dests_ok sp u (e # es) = dests_ok sp u es"

text \<open>
  The percent values passed to the progress callback, in order.
\<close>

fun percent_of :: "event \<Rightarrow> int list" where
  "percent_of (Progress_cb m p) = [p]"
| "percent_of e = []"

definition percents :: "event list \<Rightarrow> int list" where
  "percents es = concat (map percent_of es)"

text \<open>
  The bytes that the \<open>upload_buffer\<close> commands in a list of events hand to the
  device, command after command; and the slice of the image that the loop of
  \<open>_internal_flash\<close> uploads for the page of index \<open>i\<close>.
\<close>

fun payload :: "event \<Rightarrow> bytes" where
  "payload (Upload_buffer a b c d) = d"
| "payload e = []"

definition uploaded :: "event list \<Rightarrow> bytes" where
  "uploaded es = concat (map payload es)"


text \<open>
  The notice that \<open>flash\<close> prints instead of updating the decks, and the events
  that only the deck pipeline produces: the reset to firmware, the closing and opening
  of links, the waiting, the enumeration of the decks and the writes to them. An
  \<open>engine_event\<close> is neither such an event nor the notice.
\<close>

definition cold_notice :: string where
  "cold_notice = ''Skipping updating deck on coldboot''"

fun deck_pipeline_event :: "event \<Rightarrow> bool" where
  "deck_pipeline_event (Reset_to_firmware t) = True"
| "deck_pipeline_event Cload_close = True"
| "deck_pipeline_event (Sleep n) = True"
| "deck_pipeline_event Scf_open = True"
| "deck_pipeline_event Get_mems = True"
| "deck_pipeline_event Query_decks = True"
| "deck_pipeline_event (Write_sync i off d) = True"
| "deck_pipeline_event Scf_close = True"
| "deck_pipeline_event Cf_close_link = True"
| "deck_pipeline_event (Open_bootloader_uri u) = True"
| "deck_pipeline_event (Reset_to_bootloader t) = True"
| "deck_pipeline_event Scan_for_bootloader = True"
| "deck_pipeline_event Check_link_and_get_info = True"
| "deck_pipeline_event (Request_info_update t) = True"
| "deck_pipeline_event e = False"

definition engine_event :: "event \<Rightarrow> bool" where
  "engine_event e = (\<not> deck_pipeline_event e \<and> e \<noteq> Print cold_notice)"

section \<open>Example inputs\<close>

text \<open>
  One assignment of the constants of \<open>boottypes\<close> (the target ids are the ones the
  specification names), the geometry of the scenarios of the specification, a device that
  accepts every command, one whose protocol version is unknown, and the images and
  bundles that the theorems below are evaluated on.
\<close>

definition ex_types :: TargetTypes where
  "ex_types = \<lparr>STM32 = 0xFF, NRF51 = 0xFE,
     to_string = (\<lambda>i. if i = 0xFF then ''stm32'' else if i = 0xFE then ''nrf51'' else ''Unknown''),
     from_string = (\<lambda>s. if s = ''stm32'' then 0xFF else if s = ''nrf51'' then 0xFE else 0)\<rparr>"

definition ex_versions :: BootVersion where
  "ex_versions = \<lparr>CF1_PROTO_VER_0 = 0x00, CF1_PROTO_VER_1 = 0x01, CF2_PROTO_VER = 0x10\<rparr>"

definition s1_geometry :: geometry where
  "s1_geometry = \<lparr>id_code = 0xFF, page_size = 1024, buffer_pages = 10, flash_pages = 128,
     start_page = 16, addr = 0xFF\<rparr>"

definition nrf51_geometry :: geometry where
  "nrf51_geometry = \<lparr>id_code = 0xFE, page_size = 1024, buffer_pages = 1, flash_pages = 232,
     start_page = 88, addr = 0xFE\<rparr>"

definition ex_cload :: Cloader where
  "ex_cload = \<lparr>link = (\<lambda>h. True), scan_for_bootloader = (\<lambda>h. None),
     reset_to_bootloader = (\<lambda>h. True), check_link_and_get_info = (\<lambda>h. True),
     cload_protocol_version = (\<lambda>h. 0x10),
     cload_targets = (\<lambda>h. [0xFF \<mapsto> s1_geometry, 0xFE \<mapsto> nrf51_geometry]),
     write_flash = (\<lambda>h. True), error_code = (\<lambda>h. 0)\<rparr>"

definition probing_cload :: Cloader where
  "probing_cload = \<lparr>link = (\<lambda>h. False),
     scan_for_bootloader = (\<lambda>h. Some ''radio://0/110/2M''),
     reset_to_bootloader = (\<lambda>h. True), check_link_and_get_info = (\<lambda>h. True),
     cload_protocol_version = (\<lambda>h. 0x42),
     cload_targets = (\<lambda>h. [0xFF \<mapsto> s1_geometry]),
     write_flash = (\<lambda>h. True), error_code = (\<lambda>h. 0)\<rparr>"

definition ex_app :: Crazyflie where
  "ex_app = \<lparr>get_mems = (\<lambda>h. 0), query_decks = (\<lambda>h. []), write_sync = (\<lambda>h. True)\<rparr>"

definition ex_self :: Bootloader where
  "ex_self = \<lparr>clink = None, protocol_version = 0x10, warm_booted = False,
     progress_cb = True, terminate_flashing_cb = None\<rparr>"

definition cold_session :: "event list \<times> Bootloader \<times> bool" where
  "cold_session = start_bootloader ex_cload ex_versions ex_types ex_self False None []"

definition stm32_fw :: Target where
  "stm32_fw = \<lparr>platform = ''cf2'', target = ''stm32'', type = ''fw''\<rparr>"

definition nrf51_fw :: Target where
  "nrf51_fw = \<lparr>platform = ''cf2'', target = ''nrf51'', type = ''fw''\<rparr>"

definition cf1_fw :: Target where
  "cf1_fw = \<lparr>platform = ''cf1'', target = ''stm32'', type = ''fw''\<rparr>"

definition lighthouse_fw :: Target where
  "lighthouse_fw = \<lparr>platform = ''deck'', target = ''bcLighthouse4'', type = ''fw''\<rparr>"

definition s1_artifact :: FlashArtifact where
  "s1_artifact = \<lparr>content = replicate 3500 0, target_of = stm32_fw\<rparr>"

definition s3_artifact :: FlashArtifact where
  "s3_artifact = \<lparr>content = replicate 11264 0, target_of = stm32_fw\<rparr>"

definition s4_artifact :: FlashArtifact where
  "s4_artifact = \<lparr>content = replicate 114689 0, target_of = stm32_fw\<rparr>"

definition s9_artifact :: FlashArtifact where
  "s9_artifact = \<lparr>content = replicate 1280 0, target_of = stm32_fw\<rparr>"

definition s9_file :: source_file where
  "s9_file = \<lparr>raw = Some (replicate 1280 0), as_zip = None\<rparr>"


definition two_image_bundle :: source_file where
  "two_image_bundle = \<lparr>raw = Some [],
     as_zip = Some \<lparr>manifest_json =
         Some \<lparr>version = 1, files = [(''cf2.bin'', stm32_fw), (''nrf51.bin'', nrf51_fw)]\<rparr>,
       members = [''cf2.bin'' \<mapsto> [1], ''nrf51.bin'' \<mapsto> [2]]\<rparr>\<rparr>"

definition s4_bundle :: source_file where
  "s4_bundle = \<lparr>raw = Some [],
     as_zip = Some \<lparr>manifest_json =
         Some \<lparr>version = 1, files = [(''cf2.bin'', stm32_fw), (''deck.bin'', lighthouse_fw)]\<rparr>,
       members = [''cf2.bin'' \<mapsto> replicate 114689 0, ''deck.bin'' \<mapsto> [2]]\<rparr>\<rparr>"

definition s5_bundle :: source_file where
  "s5_bundle = \<lparr>raw = Some [],
     as_zip = Some \<lparr>manifest_json =
         Some \<lparr>version = 1, files = [(''cf2.bin'', stm32_fw), (''deck.bin'', lighthouse_fw)]\<rparr>,
       members = [''cf2.bin'' \<mapsto> [1], ''deck.bin'' \<mapsto> [2]]\<rparr>\<rparr>"

definition s6_bundle :: source_file where
  "s6_bundle = \<lparr>raw = Some [],
     as_zip = Some \<lparr>manifest_json = Some \<lparr>version = 2, files = [(''cf2.bin'', stm32_fw)]\<rparr>,
       members = [''cf2.bin'' \<mapsto> [1]]\<rparr>\<rparr>"

section \<open>Properties of the flashing engine\<close>

lemmas ex_simps = internal_flash_def Let_def ex_cload_def ex_types_def ex_self_def
      stm32_fw_def s1_geometry_def trunc_div_def page_loop.simps terminate_requested_def
      residual_write_def upt_conv_Cons new_events_def

lemmas flash_simps = flash_def fetch_artifacts_def get_flash_artifacts_from_zip_def
  flash_with_artifacts_def flash_flash_def update_decks_def get_platform_id_def is_cf2_def
  ex_versions_def nrf51_fw_def nrf51_geometry_def

lemma new_events_append [simp]: "new_events h (h @ es) = es"
  by (simp add: new_events_def)

lemma pages_written_append [simp]:
  "pages_written (xs @ ys) = pages_written xs @ pages_written ys"
  by (simp add: pages_written_def)

lemma pages_written_Nil [simp]: "pages_written [] = []"
  by (simp add: pages_written_def)

lemma pages_written_Cons [simp]: "pages_written (e # es) = pages_of e @ pages_written es"
  by (simp add: pages_written_def)

lemma page_loop_extends:
  "\<exists>es. fst (page_loop cload tt self G img cur tot f idx c pr h) = h @ es"
proof (induction idx arbitrary: c pr h)
  case Nil
  then show ?case by simp
next
  case (Cons i rest)
  show ?case
    apply (simp add: Let_def report_flash_error_def del: append_assoc)
    apply (intro conjI impI)
    using Cons.IH
    apply (metis append_assoc)+
    done
qed

lemma page_loop_step:
  assumes "page_loop cload tt self G img cur tot f (i # rest) c pr h = R"
  shows "(terminate_requested self h \<and> R = (h, Inl (Exception ''Flashing terminated''))) \<or>
     (\<exists>a b d r pr1. is_report r \<and> r \<noteq> Print cold_notice \<and> c + 1 < buffer_pages G \<and>
        R = page_loop cload tt self G img cur tot f rest (c + 1) pr1
              (h @ [Upload_buffer a b 0 d, r])) \<or>
     (\<exists>a b d r r2 pr1. is_report r \<and> is_report r2 \<and> r \<noteq> Print cold_notice \<and> r2 \<noteq> Print cold_notice
        \<and> buffer_pages G \<le> c + 1 \<and>
        (R = page_loop cload tt self G img cur tot f rest 0 pr1
               (h @ [Upload_buffer a b 0 d, r, r2,
                     Write_flash (addr G) 0 (int (start_page G) + int i - int c) (int c + 1)]) \<or>
         (\<exists>re. is_report re \<and> re \<noteq> Print cold_notice \<and>
            R = (h @ [Upload_buffer a b 0 d, r, r2,
                      Write_flash (addr G) 0 (int (start_page G) + int i - int c) (int c + 1), re],
                 Inl (Exception '''')))))"
proof (cases "terminate_requested self h")
  case True
  with assms show ?thesis by simp
next
  case nt: False
  define D where "D = (if (i + 1) * page_size G > length img
      then py_slice_from img (i * page_size G)
      else py_slice img (i * page_size G) ((i + 1) * page_size G))"
  define pr1 where "pr1 = (if progress_cb self then pr + f else pr)"
  define r where "r = (if progress_cb self
      then Progress_cb (msg_uploading cur tot (to_string tt (id_code G))) (py_int pr1)
      else Stdout_write ''.'')"
  define r2 where "r2 = (if progress_cb self
      then Progress_cb (msg_writing cur tot (to_string tt (id_code G))) (py_int pr1)
      else Stdout_write (str_int (int (c + 1))))"
  define w where "w = Write_flash (addr G) 0
      (int (start_page G) + int i - (int (c + 1) - 1)) (int (c + 1))"
  have w_eq: "w = Write_flash (addr G) 0 (int (start_page G) + int i - int c) (int c + 1)"
    by (simp add: w_def)
  define re where "re = (if progress_cb self
      then Progress_cb (msg_flash_error (error_code cload (h @ [Upload_buffer (addr G) (int c) 0 D, r, r2, w])))
             (py_int pr1)
      else Print (msg_flash_error_print (error_code cload (h @ [Upload_buffer (addr G) (int c) 0 D, r, r2, w]))))"
  have rep: "is_report r" "is_report r2" "is_report re"
    by (simp_all add: r_def r2_def re_def)
  have nn: "r \<noteq> Print cold_notice" "r2 \<noteq> Print cold_notice" "re \<noteq> Print cold_notice"
    by (simp_all add: r_def r2_def re_def msg_flash_error_print_def cold_notice_def)
  show ?thesis
  proof (cases "buffer_pages G \<le> c + 1")
    case False
    with nt assms have "R = page_loop cload tt self G img cur tot f rest (c + 1) pr1
              (h @ [Upload_buffer (addr G) (int c) 0 D, r])"
      by (auto simp add: Let_def D_def pr1_def r_def)
    with False rep nn show ?thesis by (simp only: not_le) blast
  next
    case True
    show ?thesis
    proof (cases "write_flash cload (h @ [Upload_buffer (addr G) (int c) 0 D, r, r2, w])")
      case ok: True
      with True nt assms have "R = page_loop cload tt self G img cur tot f rest 0 pr1
              (h @ [Upload_buffer (addr G) (int c) 0 D, r, r2, w])"
        by (auto simp add: Let_def D_def pr1_def r_def r2_def w_def)
      with True rep nn show ?thesis unfolding w_eq by blast
    next
      case bad: False
      with True nt assms have "R = (h @ [Upload_buffer (addr G) (int c) 0 D, r, r2, w, re],
          Inl (Exception ''''))"
        by (auto simp add: Let_def D_def pr1_def r_def r2_def w_def re_def report_flash_error_def)
      with True rep nn show ?thesis unfolding w_eq by blast
    qed
  qed
qed

declare page_loop.simps(2) [simp del]

lemma is_report_simps:
  assumes "is_report r"
  shows "pages_of r = []" "write_dest r = []" "write_count r = []"
    "\<not> is_upload r" "\<not> is_write_flash r" "dests_ok sp u (r # es) = dests_ok sp u es"
  using assms by (cases r; simp)+

lemma page_loop_coverage:
  assumes "page_loop cload tt self G img cur tot f [k ..< P] c pr h = (h1, Inr (c1, pr1))"
    and "c \<le> k" and "k \<le> P"
  shows "\<exists>es. h1 = h @ es \<and> c1 \<le> P \<and>
      pages_written es @ [int (start_page G) + int P - int c1 .. int (start_page G) + int P - 1]
        = [int (start_page G) + int k - int c .. int (start_page G) + int P - 1]"
  using assms
proof (induction "P - k" arbitrary: k c pr h)
  case 0
  then have "k = P" by simp
  with 0 show ?case by simp
next
  case (Suc n)
  then have kP: "k < P" by simp
  then have idx: "[k ..< P] = k # [Suc k ..< P]" by (simp add: upt_conv_Cons)
  note run = Suc.prems(1)[unfolded idx]
  from page_loop_step[OF run]
  consider
    (partial) a b d r p1 where "is_report r" "c + 1 < buffer_pages G"
      "(h1, Inr (c1, pr1)) = page_loop cload tt self G img cur tot f [Suc k ..< P] (c + 1) p1
              (h @ [Upload_buffer a b 0 d, r])"
  | (full) a b d r r2 p1 where "is_report r" "is_report r2" "buffer_pages G \<le> c + 1"
      "(h1, Inr (c1, pr1)) = page_loop cload tt self G img cur tot f [Suc k ..< P] 0 p1
               (h @ [Upload_buffer a b 0 d, r, r2,
                     Write_flash (addr G) 0 (int (start_page G) + int k - int c) (int c + 1)])"
    by auto
  then show ?case
  proof cases
    case partial
    from Suc.hyps(2) kP have n: "n = P - Suc k" by simp
    have ar: "int (start_page G) + int (Suc k) - int (c + 1) = int (start_page G) + int k - int c"
      by simp
    from Suc.hyps(1)[OF n partial(3)[symmetric]] Suc.prems(2) kP
    obtain es where es: "h1 = (h @ [Upload_buffer a b 0 d, r]) @ es" "c1 \<le> P"
      "pages_written es @ [int (start_page G) + int P - int c1 .. int (start_page G) + int P - 1]
        = [int (start_page G) + int (Suc k) - int (c + 1) .. int (start_page G) + int P - 1]"
      by auto
    have pw: "pages_written ([Upload_buffer a b 0 d, r] @ es) = pages_written es"
      using partial(1) by (simp add: is_report_simps)
    show ?thesis
    proof (intro exI conjI)
      show "h1 = h @ ([Upload_buffer a b 0 d, r] @ es)" using es(1) by simp
      show "c1 \<le> P" by fact
      show "pages_written ([Upload_buffer a b 0 d, r] @ es) @
          [int (start_page G) + int P - int c1 .. int (start_page G) + int P - 1] =
          [int (start_page G) + int k - int c .. int (start_page G) + int P - 1]"
        unfolding pw using es(3) unfolding ar .
    qed
  next
    case full
    from Suc.hyps(2) kP have n: "n = P - Suc k" by simp
    have ar: "int (start_page G) + int (Suc k) - int 0 = int (start_page G) + int k + 1"
      by simp
    let ?w = "Write_flash (addr G) 0 (int (start_page G) + int k - int c) (int c + 1)"
    from Suc.hyps(1)[OF n full(4)[symmetric]] kP
    obtain es where es: "h1 = (h @ [Upload_buffer a b 0 d, r, r2, ?w]) @ es"
      "c1 \<le> P"
      "pages_written es @ [int (start_page G) + int P - int c1 .. int (start_page G) + int P - 1]
        = [int (start_page G) + int (Suc k) - int 0 .. int (start_page G) + int P - 1]"
      by auto
    have split: "[int (start_page G) + int k - int c .. int (start_page G) + int P - 1] =
       [int (start_page G) + int k - int c .. int (start_page G) + int k] @
       [int (start_page G) + int k + 1 .. int (start_page G) + int P - 1]"
      using kP Suc.prems(2) by (intro upto_split2) auto
    have pw: "pages_written ([Upload_buffer a b 0 d, r, r2, ?w] @ es) =
        [int (start_page G) + int k - int c .. int (start_page G) + int k] @ pages_written es"
      using full(1,2) by (simp add: is_report_simps)
    show ?thesis
    proof (intro exI conjI)
      show "h1 = h @ ([Upload_buffer a b 0 d, r, r2, ?w] @ es)" using es(1) by simp
      show "c1 \<le> P" by fact
      show "pages_written ([Upload_buffer a b 0 d, r, r2, ?w] @ es) @
          [int (start_page G) + int P - int c1 .. int (start_page G) + int P - 1] =
          [int (start_page G) + int k - int c .. int (start_page G) + int P - 1]"
        unfolding pw split using es(3) unfolding ar by simp
    qed
  qed
qed

lemma residual_write_cases:
  assumes "residual_write cload tt self G cur tot lp c pr h = R"
  shows "(c = 0 \<and> R = (h, Inr ())) \<or>
     (0 < c \<and> (\<exists>r. is_report r \<and> r \<noteq> Print cold_notice \<and>
        (R = (h @ [r, Write_flash (addr G) 0 (int (start_page G) + lp - (int c - 1)) (int c)],
              Inr ()) \<or>
         (\<exists>re. is_report re \<and> re \<noteq> Print cold_notice \<and>
            R = (h @ [r, Write_flash (addr G) 0 (int (start_page G) + lp - (int c - 1)) (int c),
                      re], Inl (Exception ''''))))))"
proof (cases "0 < c")
  case False
  with assms show ?thesis by (simp add: residual_write_def)
next
  case True
  define r where "r = (if progress_cb self
      then Progress_cb (msg_writing cur tot (to_string tt (id_code G))) (py_int pr)
      else Stdout_write (str_int (int c)))"
  define w where "w = Write_flash (addr G) 0 (int (start_page G) + lp - (int c - 1)) (int c)"
  define re where "re = (if progress_cb self
      then Progress_cb (msg_flash_error (error_code cload (h @ [r, w]))) (py_int pr)
      else Print (msg_flash_error_print (error_code cload (h @ [r, w]))))"
  have rep: "is_report r" "is_report re" by (simp_all add: r_def re_def)
  have nn: "r \<noteq> Print cold_notice" "re \<noteq> Print cold_notice"
    by (simp_all add: r_def re_def msg_flash_error_print_def cold_notice_def)
  show ?thesis
  proof (cases "write_flash cload (h @ [r, w])")
    case ok: True
    with True assms have "R = (h @ [r, w], Inr ())"
      by (auto simp add: residual_write_def Let_def r_def w_def)
    with True rep nn show ?thesis unfolding w_def by blast
  next
    case bad: False
    with True assms have "R = (h @ [r, w, re], Inl (Exception ''''))"
      by (auto simp add: residual_write_def Let_def r_def w_def re_def report_flash_error_def)
    with True rep nn show ?thesis unfolding w_def by blast
  qed
qed

lemma trunc_div_nonneg: "0 \<le> a \<Longrightarrow> 0 < b \<Longrightarrow> trunc_div a b = a div b"
  by (cases "a = 0") (simp_all add: trunc_div_def)

lemma page_count_Suc:
  assumes "0 < len" "0 < ps"
  shows "page_count len ps = (len - 1) div ps + 1"
proof -
  obtain m where m: "len = Suc m" using assms(1) by (cases len) auto
  have "(m + ps) div ps = m div ps + 1" using assms(2) by simp
  with m show ?thesis by (simp add: page_count_def)
qed

lemma last_page_eq:
  assumes "0 < len" "0 < ps"
  shows "trunc_div (int len - 1) (int ps) = int (page_count len ps) - 1"
proof -
  have "trunc_div (int len - 1) (int ps) = (int len - 1) div int ps"
    using assms by (intro trunc_div_nonneg) auto
  also have "\<dots> = int ((len - 1) div ps)"
    using assms by (simp add: zdiv_int of_nat_diff)
  also have "\<dots> = int (page_count len ps) - 1"
    using page_count_Suc[OF assms] by simp
  finally show ?thesis .
qed

lemma internal_flash_loop:
  assumes "cload_targets cload h (from_string tt (target (target_of artifact))) = Some G"
    and "content artifact \<noteq> []"
    and "\<not> int (length (content artifact)) >
           (int (flash_pages G) - int (start_page G)) * int (page_size G)"
  shows "0 < page_size G \<and> (\<exists>pre. (\<forall>e\<in>set pre. is_report e) \<and>
     Print cold_notice \<notin> set pre \<and>
     internal_flash cload tt self artifact cur tot h =
       (case page_loop cload tt self G (content artifact) cur tot
               ((100 * of_nat (page_size G)) / of_nat (length (content artifact)))
               [0 ..< page_count (length (content artifact)) (page_size G)] 0 0 (h @ pre) of
          (h3, Inl e) \<Rightarrow> (h3, Inl e)
        | (h3, Inr (ctr, pr)) \<Rightarrow>
            residual_write cload tt self G cur tot
              (int (page_count (length (content artifact)) (page_size G)) - 1) ctr pr h3))"
proof -
  let ?len = "length (content artifact)"
  have len: "0 < ?len" using assms(2) by simp
  have ps: "0 < page_size G"
  proof (rule ccontr)
    assume "\<not> 0 < page_size G"
    then have "page_size G = 0" by simp
    with assms(3) len show False by simp
  qed
  note lp = last_page_eq[OF len ps]
  have n: "nat (int (page_count ?len (page_size G)) - 1 + 1) = page_count ?len (page_size G)"
    by simp
  define pre where "pre = (if progress_cb self
       then [Progress_cb (msg_starting cur tot) (py_int 0)]
       else [Stdout_write (msg_flashing cur tot (to_string tt (id_code G))
                (type (target_of artifact))),
             Logger_info (msg_bytes_pages (int ?len - 1)
                (trunc_div (int ?len) (int (page_size G)) + 1)),
             Stdout_write (msg_bytes_pages (int ?len - 1)
                (trunc_div (int ?len) (int (page_size G)) + 1))])"
  have rep: "\<forall>e\<in>set pre. is_report e" by (simp add: pre_def)
  have nn: "Print cold_notice \<notin> set pre" by (simp add: pre_def)
  have "internal_flash cload tt self artifact cur tot h =
       (case page_loop cload tt self G (content artifact) cur tot
               ((100 * of_nat (page_size G)) / of_nat ?len)
               [0 ..< page_count ?len (page_size G)] 0 0 (h @ pre) of
          (h3, Inl e) \<Rightarrow> (h3, Inl e)
        | (h3, Inr (ctr, pr)) \<Rightarrow>
            residual_write cload tt self G cur tot
              (int (page_count ?len (page_size G)) - 1) ctr pr h3)"
    using assms ps len
    by (simp add: internal_flash_def Let_def lp n pre_def)
  with ps rep nn show ?thesis by blast
qed

lemma write_dests_simps [simp]:
  "write_dests [] = []" "write_dests (e # es) = write_dest e @ write_dests es"
  "write_dests (xs @ ys) = write_dests xs @ write_dests ys"
  by (simp_all add: write_dests_def)

lemma write_counts_simps [simp]:
  "write_counts [] = []" "write_counts (e # es) = write_count e @ write_counts es"
  "write_counts (xs @ ys) = write_counts xs @ write_counts ys"
  by (simp_all add: write_counts_def)

lemma reports_no_pages:
  "\<forall>e\<in>set pre. is_report e \<Longrightarrow>
     pages_written pre = [] \<and> write_dests pre = [] \<and> write_counts pre = [] \<and>
     filter is_upload pre = [] \<and> filter is_write_flash pre = []"
  by (induction pre) (auto simp: is_report_simps)

lemma not_write_simps:
  assumes "\<not> is_write_flash e"
  shows "pages_of e = []" "write_dest e = []" "write_count e = []"
  using assms by (cases e; simp)+

lemma write_dests_subset:
  "\<forall>n\<in>set (write_counts es). 1 \<le> n \<Longrightarrow> set (write_dests es) \<subseteq> set (pages_written es)"
proof (induction es)
  case Nil
  then show ?case by simp
next
  case (Cons e es)
  show ?case
  proof (cases "is_write_flash e")
    case False
    with Cons show ?thesis by (simp add: not_write_simps)
  next
    case True
    then obtain a b d n where e: "e = Write_flash a b d n" by (cases e) auto
    with Cons.prems have "1 \<le> n" "\<forall>n\<in>set (write_counts es). 1 \<le> n" by simp_all
    with Cons.IH e show ?thesis by auto
  qed
qed

lemma write_dests_sorted:
  "sorted_wrt (<) (pages_written es) \<Longrightarrow> \<forall>n\<in>set (write_counts es). 1 \<le> n \<Longrightarrow>
     sorted_wrt (<) (write_dests es)"
proof (induction es)
  case Nil
  then show ?case by simp
next
  case (Cons e es)
  show ?case
  proof (cases "is_write_flash e")
    case False
    with Cons show ?thesis by (simp add: not_write_simps)
  next
    case True
    then obtain a b d n where e: "e = Write_flash a b d n" by (cases e) auto
    from Cons.prems(2) e have n: "1 \<le> n" and rest: "\<forall>n\<in>set (write_counts es). 1 \<le> n"
      by simp_all
    from Cons.prems(1) e
    have s: "sorted_wrt (<) ([d .. d + n - 1] @ pages_written es)" by simp
    then have s2: "sorted_wrt (<) (pages_written es)"
      and lt: "\<forall>x\<in>set [d .. d + n - 1]. \<forall>y\<in>set (pages_written es). x < y"
      unfolding sorted_wrt_append by blast+
    from n have "d \<in> set [d .. d + n - 1]" by simp
    with lt write_dests_subset[OF rest] have "\<forall>y\<in>set (write_dests es). d < y" by blast
    with Cons.IH[OF s2 rest] e show ?thesis by simp
  qed
qed

lemma page_loop_counts_pos:
  "\<exists>es. fst (page_loop cload tt self G img cur tot f idx c pr h) = h @ es \<and>
        (\<forall>n\<in>set (write_counts es). 1 \<le> n)"
proof (induction idx arbitrary: c pr h)
  case Nil
  then show ?case by simp
next
  case (Cons i rest)
  have "page_loop cload tt self G img cur tot f (i # rest) c pr h =
      page_loop cload tt self G img cur tot f (i # rest) c pr h" by (rule refl)
  from page_loop_step[OF this]
  show ?case
  proof (elim disjE exE conjE)
    assume "page_loop cload tt self G img cur tot f (i # rest) c pr h =
       (h, Inl (Exception ''Flashing terminated''))"
    then show ?thesis by simp
  next
    fix a b d r pr1
    assume r: "is_report r"
      and eq: "page_loop cload tt self G img cur tot f (i # rest) c pr h =
        page_loop cload tt self G img cur tot f rest (c + 1) pr1 (h @ [Upload_buffer a b 0 d, r])"
    from Cons.IH[of "c + 1" pr1 "h @ [Upload_buffer a b 0 d, r]"]
    obtain es where "fst (page_loop cload tt self G img cur tot f rest (c + 1) pr1
        (h @ [Upload_buffer a b 0 d, r])) = (h @ [Upload_buffer a b 0 d, r]) @ es"
      "\<forall>n\<in>set (write_counts es). 1 \<le> n" by blast
    with eq r show ?thesis
      by (intro exI[of _ "[Upload_buffer a b 0 d, r] @ es"]) (simp add: is_report_simps)
  next
    fix a b d r r2 pr1
    let ?w = "Write_flash (addr G) 0 (int (start_page G) + int i - int c) (int c + 1)"
    assume r: "is_report r" "is_report r2"
      and eq: "page_loop cload tt self G img cur tot f (i # rest) c pr h =
        page_loop cload tt self G img cur tot f rest 0 pr1 (h @ [Upload_buffer a b 0 d, r, r2, ?w])"
    from Cons.IH[of 0 pr1 "h @ [Upload_buffer a b 0 d, r, r2, ?w]"]
    obtain es where "fst (page_loop cload tt self G img cur tot f rest 0 pr1
        (h @ [Upload_buffer a b 0 d, r, r2, ?w])) = (h @ [Upload_buffer a b 0 d, r, r2, ?w]) @ es"
      "\<forall>n\<in>set (write_counts es). 1 \<le> n" by blast
    with eq r show ?thesis
      by (intro exI[of _ "[Upload_buffer a b 0 d, r, r2, ?w] @ es"]) (simp add: is_report_simps)
  next
    fix a b d r r2 pr1 re
    let ?w = "Write_flash (addr G) 0 (int (start_page G) + int i - int c) (int c + 1)"
    assume r: "is_report r" "is_report r2" "is_report re"
      and eq: "page_loop cload tt self G img cur tot f (i # rest) c pr h =
        (h @ [Upload_buffer a b 0 d, r, r2, ?w, re], Inl (Exception ''''))"
    then show ?thesis
      by (intro exI[of _ "[Upload_buffer a b 0 d, r, r2, ?w, re]"]) (simp add: is_report_simps)
  qed
qed

lemma internal_flash_too_big:
  assumes "cload_targets cload h (from_string tt (target (target_of artifact))) = Some G"
    and "content artifact \<noteq> []"
    and "int (length (content artifact)) >
           (int (flash_pages G) - int (start_page G)) * int (page_size G)"
  shows "\<exists>pre. (\<forall>e\<in>set pre. is_report e) \<and> Print cold_notice \<notin> set pre \<and>
     internal_flash cload tt self artifact cur tot h =
       (h @ pre, Inl (Exception ''Not enough space to flash the image file''))"
proof -
  define pre where "pre =
    [if progress_cb self then Progress_cb (msg_starting cur tot) (py_int 0)
     else Stdout_write (msg_flashing cur tot (to_string tt (id_code G))
            (type (target_of artifact))),
     if progress_cb self
     then Progress_cb ''Error: Not enough space to flash the image file.'' (py_int 0)
     else Print ''Error: Not enough space to flash the image file.'']"
  have "\<forall>e\<in>set pre. is_report e" by (simp add: pre_def)
  moreover have "Print cold_notice \<notin> set pre" by (simp add: pre_def cold_notice_def)
  moreover have "internal_flash cload tt self artifact cur tot h =
       (h @ pre, Inl (Exception ''Not enough space to flash the image file''))"
    using assms by (simp add: internal_flash_def Let_def pre_def)
  ultimately show ?thesis by blast
qed

lemma internal_flash_success:
  assumes lookup: "cload_targets cload h (from_string tt (target (target_of artifact))) = Some G"
    and ne: "content artifact \<noteq> []"
    and ok: "internal_flash cload tt self artifact cur tot h = (h1, Inr ())"
  shows "\<exists>es. h1 = h @ es \<and>
     pages_written es = [int (start_page G) ..
        int (start_page G) + int (page_count (length (content artifact)) (page_size G)) - 1] \<and>
     (\<forall>n\<in>set (write_counts es). 1 \<le> n)"
proof -
  let ?P = "page_count (length (content artifact)) (page_size G)"
  let ?S = "int (start_page G)"
  have fits: "\<not> int (length (content artifact)) >
           (int (flash_pages G) - int (start_page G)) * int (page_size G)"
  proof
    assume "int (length (content artifact)) >
           (int (flash_pages G) - int (start_page G)) * int (page_size G)"
    from internal_flash_too_big[OF lookup ne this, of self cur tot] ok show False by auto
  qed
  from internal_flash_loop[OF lookup ne fits, of self cur tot]
  obtain pre where pre: "\<forall>e\<in>set pre. is_report e"
    and eq: "internal_flash cload tt self artifact cur tot h =
       (case page_loop cload tt self G (content artifact) cur tot
               ((100 * of_nat (page_size G)) / of_nat (length (content artifact)))
               [0 ..< ?P] 0 0 (h @ pre) of
          (h3, Inl e) \<Rightarrow> (h3, Inl e)
        | (h3, Inr (ctr, pr)) \<Rightarrow>
            residual_write cload tt self G cur tot (int ?P - 1) ctr pr h3)"
    by blast
  obtain h3 r3 where loop: "page_loop cload tt self G (content artifact) cur tot
               ((100 * of_nat (page_size G)) / of_nat (length (content artifact)))
               [0 ..< ?P] 0 0 (h @ pre) = (h3, r3)"
    by (cases "page_loop cload tt self G (content artifact) cur tot
               ((100 * of_nat (page_size G)) / of_nat (length (content artifact)))
               [0 ..< ?P] 0 0 (h @ pre)") auto
  from eq ok loop obtain c1 pr1 where r3: "r3 = Inr (c1, pr1)"
    and res: "residual_write cload tt self G cur tot (int ?P - 1) c1 pr1 h3 = (h1, Inr ())"
    by (cases r3) auto
  from page_loop_coverage[OF loop[unfolded r3]]
  obtain es where es: "h3 = (h @ pre) @ es" "c1 \<le> ?P"
    "pages_written es @ [?S + int ?P - int c1 .. ?S + int ?P - 1] = [?S + int 0 - int 0 .. ?S + int ?P - 1]"
    by auto
  from page_loop_counts_pos[of cload tt self G "content artifact" cur tot
      "(100 * of_nat (page_size G)) / of_nat (length (content artifact))" "[0 ..< ?P]" 0 0 "h @ pre"]
    loop es(1)
  have pos: "\<forall>n\<in>set (write_counts es). 1 \<le> n" by auto
  note rp = reports_no_pages[OF pre]
  have es3: "pages_written es @ [?S + int ?P - int c1 .. ?S + int ?P - 1] = [?S .. ?S + int ?P - 1]"
    using es(3) by simp
  from residual_write_cases[OF res]
  consider (empty) "c1 = 0" "h1 = h3"
    | (residual) r where "0 < c1" "is_report r"
        "h1 = h3 @ [r, Write_flash (addr G) 0 (?S + (int ?P - 1) - (int c1 - 1)) (int c1)]"
    by auto
  then show ?thesis
  proof cases
    case empty
    have "[?S + int ?P - int c1 .. ?S + int ?P - 1] = []" using empty(1) by simp
    with es3 have "pages_written es = [?S .. ?S + int ?P - 1]" by simp
    with rp have "pages_written (pre @ es) = [?S .. ?S + int ?P - 1]" by simp
    moreover have "\<forall>n\<in>set (write_counts (pre @ es)). 1 \<le> n" using rp pos by simp
    moreover have "h1 = h @ (pre @ es)" using empty(2) es(1) by simp
    ultimately show ?thesis by blast
  next
    case residual
    let ?w = "Write_flash (addr G) 0 (?S + (int ?P - 1) - (int c1 - 1)) (int c1)"
    have "?S + (int ?P - 1) - (int c1 - 1) = ?S + int ?P - int c1"
      and "?S + (int ?P - 1) - (int c1 - 1) + int c1 - 1 = ?S + int ?P - 1"
      by simp_all
    then have pw: "pages_of ?w = [?S + int ?P - int c1 .. ?S + int ?P - 1]"
      by (simp only: pages_of.simps)
    have "pages_written (pre @ es @ [r, ?w]) = pages_written es @ pages_of ?w"
      using rp residual(2) by (simp add: is_report_simps del: pages_of.simps)
    with pw es3 have "pages_written (pre @ es @ [r, ?w]) = [?S .. ?S + int ?P - 1]" by simp
    moreover have "\<forall>n\<in>set (write_counts (pre @ es @ [r, ?w])). 1 \<le> n"
      using rp pos residual(1,2) by (simp add: is_report_simps)
    moreover have "h1 = h @ (pre @ es @ [r, ?w])" using residual(3) es(1) by simp
    ultimately show ?thesis by blast
  qed
qed

text \<open>
  C1: when \<open>_internal_flash\<close> returns normally for an image of at least one byte, the
  pages named by its \<open>write_flash\<close> commands, taken command by command, are exactly
  \<open>start_page, \<dots>, start_page + ceil(len(image) / page_size) - 1\<close>: each page
  once, and the destinations of the commands strictly ascending.
\<close>

theorem page_coverage:
  assumes "cload_targets cload h (from_string tt (target (target_of artifact))) = Some G"
    and "content artifact \<noteq> []"
    and "internal_flash cload tt self artifact cur tot h = (h1, Inr ())"
  shows "pages_written (new_events h h1) =
           [int (start_page G) ..
            int (start_page G) + int (page_count (length (content artifact)) (page_size G)) - 1] \<and>
         set (pages_written (new_events h h1)) =
           {int (start_page G) ..
            int (start_page G) + int (page_count (length (content artifact)) (page_size G)) - 1} \<and>
         distinct (pages_written (new_events h h1)) \<and>
         sorted_wrt (<) (write_dests (new_events h h1))"
proof -
  from internal_flash_success[OF assms]
  obtain es where es: "h1 = h @ es"
     "pages_written es = [int (start_page G) ..
        int (start_page G) + int (page_count (length (content artifact)) (page_size G)) - 1]"
     "\<forall>n\<in>set (write_counts es). 1 \<le> n"
    by blast
  have "sorted_wrt (<) (pages_written es)"
    unfolding es(2) by (simp add: strict_sorted_iff)
  from write_dests_sorted[OF this es(3)] es(1,2) show ?thesis by simp
qed

theorem page_coverage_witness:
  "cload_targets ex_cload [] (from_string ex_types (target (target_of s1_artifact))) =
     Some s1_geometry \<and>
   content s1_artifact \<noteq> [] \<and>
   snd (internal_flash ex_cload ex_types ex_self s1_artifact 1 1 []) = Inr () \<and>
   pages_written (new_events [] (fst (internal_flash ex_cload ex_types ex_self s1_artifact 1 1 [])))
     = [16, 17, 18, 19] \<and>
   write_dests (new_events [] (fst (internal_flash ex_cload ex_types ex_self s1_artifact 1 1 [])))
     = [16]"
proof -
  have lookup: "cload_targets ex_cload [] (from_string ex_types (target (target_of s1_artifact))) =
     Some s1_geometry"
    by (simp add: ex_cload_def ex_types_def s1_artifact_def stm32_fw_def)
  have ne: "content s1_artifact \<noteq> []" by (simp add: s1_artifact_def)
  have ok: "snd (internal_flash ex_cload ex_types ex_self s1_artifact 1 1 []) = Inr ()"
    by (simp add: internal_flash_def Let_def ex_cload_def ex_types_def ex_self_def s1_artifact_def
      stm32_fw_def s1_geometry_def trunc_div_def page_loop.simps terminate_requested_def
      residual_write_def upt_conv_Cons)
  then have run: "internal_flash ex_cload ex_types ex_self s1_artifact 1 1 [] =
      (fst (internal_flash ex_cload ex_types ex_self s1_artifact 1 1 []), Inr ())"
    by (simp add: prod_eq_iff)
  have dests: "write_dests
      (new_events [] (fst (internal_flash ex_cload ex_types ex_self s1_artifact 1 1 []))) = [16]"
    by (simp add: internal_flash_def Let_def ex_cload_def ex_types_def ex_self_def s1_artifact_def
      stm32_fw_def s1_geometry_def trunc_div_def page_loop.simps terminate_requested_def
      residual_write_def upt_conv_Cons new_events_def)
  have pc: "page_count (length (content s1_artifact)) (page_size s1_geometry) = 4"
    by (simp add: page_count_def s1_artifact_def s1_geometry_def)
  have "[16 .. 19] = [16, 17, 18, 19::int]" by (simp add: upto_rec1)
  with page_coverage[OF lookup ne run] pc lookup ne ok dests show ?thesis
    by (simp add: s1_geometry_def)
qed

text \<open>
  C4: an image that is not empty and is longer than
  \<open>(flash_pages - start_page) * page_size\<close> makes \<open>_internal_flash\<close> raise
  \<open>Not enough space to flash the image file\<close>, and what it did before raising contains
  no \<open>upload_buffer\<close> and no \<open>write_flash\<close>. The witness is the image one byte over
  the limit of 114688 bytes.
\<close>

theorem size_guard:
  assumes "cload_targets cload h (from_string tt (target (target_of artifact))) = Some G"
    and "content artifact \<noteq> []"
    and "int (length (content artifact)) >
           (int (flash_pages G) - int (start_page G)) * int (page_size G)"
  shows "snd (internal_flash cload tt self artifact cur tot h) =
           Inl (Exception ''Not enough space to flash the image file'') \<and>
         take (length h) (fst (internal_flash cload tt self artifact cur tot h)) = h \<and>
         filter (\<lambda>e. is_upload e \<or> is_write_flash e)
           (new_events h (fst (internal_flash cload tt self artifact cur tot h))) = []"
proof -
  from internal_flash_too_big[OF assms, of self cur tot]
  obtain pre where pre: "\<forall>e\<in>set pre. is_report e"
    and eq: "internal_flash cload tt self artifact cur tot h =
       (h @ pre, Inl (Exception ''Not enough space to flash the image file''))"
    by blast
  from pre have "filter (\<lambda>e. is_upload e \<or> is_write_flash e) pre = []"
    by (induction pre) (auto simp: is_report_simps)
  with eq show ?thesis by simp
qed

theorem size_guard_witness:
  "cload_targets ex_cload [] (from_string ex_types (target (target_of s4_artifact))) =
     Some s1_geometry \<and>
   content s4_artifact \<noteq> [] \<and>
   int (length (content s4_artifact)) = 114688 + 1 \<and>
   (int (flash_pages s1_geometry) - int (start_page s1_geometry)) * int (page_size s1_geometry)
     = 114688 \<and>
   snd (internal_flash ex_cload ex_types ex_self s4_artifact 1 1 []) =
     Inl (Exception ''Not enough space to flash the image file'') \<and>
   filter (\<lambda>e. is_upload e \<or> is_write_flash e)
     (new_events [] (fst (internal_flash ex_cload ex_types ex_self s4_artifact 1 1 []))) = []"
proof -
  have lookup: "cload_targets ex_cload [] (from_string ex_types (target (target_of s4_artifact))) =
     Some s1_geometry"
    by (simp add: ex_cload_def ex_types_def s4_artifact_def stm32_fw_def)
  have ne: "content s4_artifact \<noteq> []" by (simp add: s4_artifact_def)
  have len: "int (length (content s4_artifact)) = 114688 + 1" by (simp add: s4_artifact_def)
  have lim: "(int (flash_pages s1_geometry) - int (start_page s1_geometry)) *
      int (page_size s1_geometry) = 114688"
    by (simp add: s1_geometry_def)
  have big: "int (length (content s4_artifact)) >
      (int (flash_pages s1_geometry) - int (start_page s1_geometry)) * int (page_size s1_geometry)"
    unfolding len lim by simp
  from size_guard[OF lookup ne big, of ex_self 1 1] lookup ne len lim show ?thesis by simp
qed

lemma page_loop_counts:
  assumes "c < buffer_pages G"
  shows "\<exists>es. fst (page_loop cload tt self G img cur tot f idx c pr h) = h @ es \<and>
        (\<forall>n\<in>set (write_counts es). n = int (buffer_pages G)) \<and>
        (\<forall>c1 pr1. snd (page_loop cload tt self G img cur tot f idx c pr h) = Inr (c1, pr1) \<longrightarrow>
           c1 < buffer_pages G)"
  using assms
proof (induction idx arbitrary: c pr h)
  case Nil
  then show ?case by simp
next
  case (Cons i rest)
  have "page_loop cload tt self G img cur tot f (i # rest) c pr h =
      page_loop cload tt self G img cur tot f (i # rest) c pr h" by (rule refl)
  from page_loop_step[OF this]
  show ?case
  proof (elim disjE exE conjE)
    assume "page_loop cload tt self G img cur tot f (i # rest) c pr h =
       (h, Inl (Exception ''Flashing terminated''))"
    then show ?thesis by simp
  next
    fix a b d r pr1
    assume r: "is_report r" and lt: "c + 1 < buffer_pages G"
      and eq: "page_loop cload tt self G img cur tot f (i # rest) c pr h =
        page_loop cload tt self G img cur tot f rest (c + 1) pr1 (h @ [Upload_buffer a b 0 d, r])"
    from Cons.IH[OF lt, of pr1 "h @ [Upload_buffer a b 0 d, r]"]
    obtain es where es: "fst (page_loop cload tt self G img cur tot f rest (c + 1) pr1
        (h @ [Upload_buffer a b 0 d, r])) = (h @ [Upload_buffer a b 0 d, r]) @ es"
      "\<forall>n\<in>set (write_counts es). n = int (buffer_pages G)"
      "\<forall>c1 pr1a. snd (page_loop cload tt self G img cur tot f rest (c + 1) pr1
        (h @ [Upload_buffer a b 0 d, r])) = Inr (c1, pr1a) \<longrightarrow> c1 < buffer_pages G"
      by blast
    show ?thesis unfolding eq
      using es r by (intro exI[of _ "[Upload_buffer a b 0 d, r] @ es"]) (simp add: is_report_simps)
  next
    fix a b d r r2 pr1
    let ?w = "Write_flash (addr G) 0 (int (start_page G) + int i - int c) (int c + 1)"
    assume r: "is_report r" "is_report r2" and ge: "buffer_pages G \<le> c + 1"
      and eq: "page_loop cload tt self G img cur tot f (i # rest) c pr h =
        page_loop cload tt self G img cur tot f rest 0 pr1 (h @ [Upload_buffer a b 0 d, r, r2, ?w])"
    from Cons.prems have pos: "0 < buffer_pages G" by simp
    from Cons.prems ge have full: "int c + 1 = int (buffer_pages G)" by simp
    from Cons.IH[OF pos, of pr1 "h @ [Upload_buffer a b 0 d, r, r2, ?w]"]
    obtain es where es: "fst (page_loop cload tt self G img cur tot f rest 0 pr1
        (h @ [Upload_buffer a b 0 d, r, r2, ?w])) = (h @ [Upload_buffer a b 0 d, r, r2, ?w]) @ es"
      "\<forall>n\<in>set (write_counts es). n = int (buffer_pages G)"
      "\<forall>c1 pr1a. snd (page_loop cload tt self G img cur tot f rest 0 pr1
        (h @ [Upload_buffer a b 0 d, r, r2, ?w])) = Inr (c1, pr1a) \<longrightarrow> c1 < buffer_pages G"
      by blast
    show ?thesis unfolding eq
      using es r full
      by (intro exI[of _ "[Upload_buffer a b 0 d, r, r2, ?w] @ es"]) (simp add: is_report_simps)
  next
    fix a b d r r2 pr1 re
    let ?w = "Write_flash (addr G) 0 (int (start_page G) + int i - int c) (int c + 1)"
    assume r: "is_report r" "is_report r2" "is_report re" and ge: "buffer_pages G \<le> c + 1"
      and eq: "page_loop cload tt self G img cur tot f (i # rest) c pr h =
        (h @ [Upload_buffer a b 0 d, r, r2, ?w, re], Inl (Exception ''''))"
    from Cons.prems ge have full: "int c + 1 = int (buffer_pages G)" by simp
    show ?thesis unfolding eq using r full
      by (intro exI[of _ "[Upload_buffer a b 0 d, r, r2, ?w, re]"]) (simp add: is_report_simps)
  qed
qed

lemma residual_write_counts:
  "\<exists>es. fst (residual_write cload tt self G cur tot lp c pr h) = h @ es \<and>
     write_counts es = (if 0 < c then [int c] else [])"
proof -
  have "residual_write cload tt self G cur tot lp c pr h =
      residual_write cload tt self G cur tot lp c pr h" by (rule refl)
  from residual_write_cases[OF this] show ?thesis
  proof (elim disjE exE conjE)
    let ?w = "Write_flash (addr G) 0 (int (start_page G) + lp - (int c - 1)) (int c)"
    fix r assume "0 < c" "is_report r"
      "residual_write cload tt self G cur tot lp c pr h = (h @ [r, ?w], Inr ())"
    then show ?thesis by (intro exI[of _ "[r, ?w]"]) (simp add: is_report_simps)
  next
    let ?w = "Write_flash (addr G) 0 (int (start_page G) + lp - (int c - 1)) (int c)"
    fix r re assume "0 < c" "is_report r" "is_report re"
      "residual_write cload tt self G cur tot lp c pr h = (h @ [r, ?w, re], Inl (Exception ''''))"
    then show ?thesis by (intro exI[of _ "[r, ?w, re]"]) (simp add: is_report_simps)
  qed simp
qed

lemma internal_flash_counts:
  assumes lookup: "cload_targets cload h (from_string tt (target (target_of artifact))) = Some G"
    and bp: "1 \<le> buffer_pages G"
  shows "\<exists>es. fst (internal_flash cload tt self artifact cur tot h) = h @ es \<and>
     (\<forall>n\<in>set (write_counts es). n \<le> int (buffer_pages G))"
proof (cases "content artifact = []")
  case True
  with lookup show ?thesis by (simp add: internal_flash_def)
next
  case ne: False
  show ?thesis
  proof (cases "int (length (content artifact)) >
           (int (flash_pages G) - int (start_page G)) * int (page_size G)")
    case True
    from internal_flash_too_big[OF lookup ne True, of self cur tot]
    obtain pre where "\<forall>e\<in>set pre. is_report e"
      "internal_flash cload tt self artifact cur tot h =
         (h @ pre, Inl (Exception ''Not enough space to flash the image file''))" by blast
    with reports_no_pages[of pre] show ?thesis by (intro exI[of _ pre]) simp
  next
    case False
    let ?P = "page_count (length (content artifact)) (page_size G)"
    let ?f = "(100 * of_nat (page_size G)) / of_nat (length (content artifact)) :: rat"
    from internal_flash_loop[OF lookup ne False, of self cur tot]
    obtain pre where pre: "\<forall>e\<in>set pre. is_report e"
      and eq: "internal_flash cload tt self artifact cur tot h =
       (case page_loop cload tt self G (content artifact) cur tot ?f [0 ..< ?P] 0 0 (h @ pre) of
          (h3, Inl e) \<Rightarrow> (h3, Inl e)
        | (h3, Inr (ctr, pr)) \<Rightarrow>
            residual_write cload tt self G cur tot (int ?P - 1) ctr pr h3)"
      by blast
    from bp have "0 < buffer_pages G" by simp
    from page_loop_counts[OF this, of cload tt self "content artifact" cur tot ?f "[0 ..< ?P]" 0
        "h @ pre"]
    obtain es where es:
      "fst (page_loop cload tt self G (content artifact) cur tot ?f [0 ..< ?P] 0 0 (h @ pre)) =
         (h @ pre) @ es"
      "\<forall>n\<in>set (write_counts es). n = int (buffer_pages G)"
      "\<forall>c1 pr1. snd (page_loop cload tt self G (content artifact) cur tot ?f [0 ..< ?P] 0 0
          (h @ pre)) = Inr (c1, pr1) \<longrightarrow> c1 < buffer_pages G"
      by blast
    note rp = reports_no_pages[OF pre]
    obtain h3 r3 where loop:
      "page_loop cload tt self G (content artifact) cur tot ?f [0 ..< ?P] 0 0 (h @ pre) = (h3, r3)"
      by (cases "page_loop cload tt self G (content artifact) cur tot ?f [0 ..< ?P] 0 0 (h @ pre)")
        auto
    with es(1) have h3: "h3 = h @ pre @ es" by simp
    show ?thesis
    proof (cases r3)
      case (Inl e)
      with eq loop h3 have "fst (internal_flash cload tt self artifact cur tot h) = h @ (pre @ es)"
        by simp
      moreover have "\<forall>n\<in>set (write_counts (pre @ es)). n \<le> int (buffer_pages G)"
        using rp es(2) by simp
      ultimately show ?thesis by blast
    next
      case (Inr cp)
      obtain c1 pr1 where cp: "cp = (c1, pr1)" by (cases cp) auto
      with Inr loop es(3) have c1: "c1 < buffer_pages G" by simp
      from residual_write_counts[of cload tt self G cur tot "int ?P - 1" c1 pr1 h3]
      obtain es2 where es2:
        "fst (residual_write cload tt self G cur tot (int ?P - 1) c1 pr1 h3) = h3 @ es2"
        "write_counts es2 = (if 0 < c1 then [int c1] else [])" by blast
      from eq loop Inr cp es2(1) h3
      have "fst (internal_flash cload tt self artifact cur tot h) = h @ (pre @ es @ es2)"
        by simp
      moreover have "\<forall>n\<in>set (write_counts (pre @ es @ es2)). n \<le> int (buffer_pages G)"
        using rp es(2) es2(2) c1 by auto
      ultimately show ?thesis by blast
    qed
  qed
qed

text \<open>
  C2: for a target with \<open>buffer_pages \<ge> 1\<close>, no \<open>write_flash\<close> command of
  \<open>_internal_flash\<close> names more than \<open>buffer_pages\<close> pages. The commands of the
  loop, entered with an empty buffer, name exactly \<open>buffer_pages\<close> pages; the counter
  the loop leaves is below \<open>buffer_pages\<close>, and it is the number of pages the write
  after the loop names.
\<close>

theorem batch_bound:
  assumes "cload_targets cload h (from_string tt (target (target_of artifact))) = Some G"
    and "1 \<le> buffer_pages G"
  shows "(\<forall>n\<in>set (write_counts (new_events h (fst (internal_flash cload tt self artifact cur tot h)))).
            n \<le> int (buffer_pages G)) \<and>
         (\<forall>n\<in>set (write_counts (new_events h2
               (fst (page_loop cload tt self G img cur tot f idx 0 pr h2)))).
            n = int (buffer_pages G)) \<and>
         (\<forall>c1 pr1. snd (page_loop cload tt self G img cur tot f idx 0 pr h2) = Inr (c1, pr1) \<longrightarrow>
            c1 < buffer_pages G \<and>
            write_counts (new_events h3
              (fst (residual_write cload tt self G cur tot lp c1 pr1 h3))) =
              (if 0 < c1 then [int c1] else []))"
proof -
  from internal_flash_counts[OF assms, of self cur tot]
  have a: "\<forall>n\<in>set (write_counts (new_events h (fst (internal_flash cload tt self artifact cur tot h)))).
            n \<le> int (buffer_pages G)"
    by auto
  from assms(2) have "0 < buffer_pages G" by simp
  from page_loop_counts[OF this, of cload tt self img cur tot f idx pr h2]
  have b: "\<forall>n\<in>set (write_counts (new_events h2
               (fst (page_loop cload tt self G img cur tot f idx 0 pr h2)))).
            n = int (buffer_pages G)"
    and c: "\<forall>c1 pr1. snd (page_loop cload tt self G img cur tot f idx 0 pr h2) = Inr (c1, pr1) \<longrightarrow>
            c1 < buffer_pages G"
    by auto
  have d: "write_counts (new_events h3
              (fst (residual_write cload tt self G cur tot lp c1 pr1 h3))) =
              (if 0 < c1 then [int c1] else [])" for c1 pr1
    using residual_write_counts[of cload tt self G cur tot lp c1 pr1 h3] by auto
  from a b c d show ?thesis by blast
qed

theorem batch_bound_witness:
  "cload_targets ex_cload [] (from_string ex_types (target (target_of s3_artifact))) =
     Some s1_geometry \<and>
   1 \<le> buffer_pages s1_geometry \<and>
   write_counts (new_events [] (fst (internal_flash ex_cload ex_types ex_self s3_artifact 1 1 [])))
     = [10, 1] \<and>
   list_all (\<lambda>n. n \<le> int (buffer_pages s1_geometry))
     (write_counts
        (new_events [] (fst (internal_flash ex_cload ex_types ex_self s3_artifact 1 1 []))))"
proof -
  have lookup: "cload_targets ex_cload [] (from_string ex_types (target (target_of s3_artifact))) =
     Some s1_geometry"
    by (simp add: ex_cload_def ex_types_def s3_artifact_def stm32_fw_def)
  have bp: "1 \<le> buffer_pages s1_geometry" by (simp add: s1_geometry_def)
  have run: "write_counts
      (new_events [] (fst (internal_flash ex_cload ex_types ex_self s3_artifact 1 1 []))) = [10, 1]"
    by (simp add: ex_simps s3_artifact_def)
  from batch_bound[OF lookup bp, where self = ex_self and cur = 1 and tot = 1] lookup bp run
  show ?thesis
    by (simp add: list_all_iff)
qed

lemma uploads_simps [simp]:
  "uploads [] = 0" "uploads (xs @ ys) = uploads xs + uploads ys"
  "uploads (e # es) = (if is_upload e then 1 else 0) + uploads es"
  by (simp_all add: uploads_def)

lemma dests_ok_append:
  "dests_ok sp u (xs @ ys) = (dests_ok sp u xs \<and> dests_ok sp (u + int (uploads xs)) ys)"
proof (induction xs arbitrary: u)
  case Nil
  then show ?case by simp
next
  case (Cons e xs)
  show ?case by (cases e) (simp_all add: Cons.IH ac_simps)
qed

lemma dests_ok_reports:
  "\<forall>e\<in>set pre. is_report e \<Longrightarrow> dests_ok sp u pre \<and> uploads pre = 0"
  by (induction pre) (auto simp: is_report_simps)

lemma page_loop_dests:
  assumes "k \<le> P"
  shows "\<exists>es. fst (page_loop cload tt self G img cur tot f [k ..< P] c pr h) = h @ es \<and>
        dests_ok (int (start_page G)) (int k) es \<and> uploads es \<le> P - k \<and>
        (\<forall>c1 pr1. snd (page_loop cload tt self G img cur tot f [k ..< P] c pr h) = Inr (c1, pr1) \<longrightarrow>
           uploads es = P - k)"
  using assms
proof (induction "P - k" arbitrary: k c pr h)
  case 0
  then show ?case by simp
next
  case (Suc n)
  then have kP: "k < P" and n: "n = P - Suc k" and le: "Suc k \<le> P" by simp_all
  have idx: "[k ..< P] = k # [Suc k ..< P]" using kP by (simp add: upt_conv_Cons)
  have "page_loop cload tt self G img cur tot f (k # [Suc k ..< P]) c pr h =
      page_loop cload tt self G img cur tot f (k # [Suc k ..< P]) c pr h" by (rule refl)
  from page_loop_step[OF this]
  show ?case unfolding idx
  proof (elim disjE exE conjE)
    assume "page_loop cload tt self G img cur tot f (k # [Suc k ..< P]) c pr h =
       (h, Inl (Exception ''Flashing terminated''))"
    then show "\<exists>es. fst (page_loop cload tt self G img cur tot f (k # [Suc k ..< P]) c pr h) = h @ es \<and>
        dests_ok (int (start_page G)) (int k) es \<and> uploads es \<le> P - k \<and>
        (\<forall>c1 pr1. snd (page_loop cload tt self G img cur tot f (k # [Suc k ..< P]) c pr h) =
           Inr (c1, pr1) \<longrightarrow> uploads es = P - k)"
      by simp
  next
    fix a b d r pr1
    assume r: "is_report r"
      and eq: "page_loop cload tt self G img cur tot f (k # [Suc k ..< P]) c pr h =
        page_loop cload tt self G img cur tot f [Suc k ..< P] (c + 1) pr1
          (h @ [Upload_buffer a b 0 d, r])"
    from Suc.hyps(1)[OF n le, of "c + 1" pr1 "h @ [Upload_buffer a b 0 d, r]"]
    obtain es where es: "fst (page_loop cload tt self G img cur tot f [Suc k ..< P] (c + 1) pr1
        (h @ [Upload_buffer a b 0 d, r])) = (h @ [Upload_buffer a b 0 d, r]) @ es"
      "dests_ok (int (start_page G)) (int (Suc k)) es" "uploads es \<le> P - Suc k"
      "\<forall>c1 pr1a. snd (page_loop cload tt self G img cur tot f [Suc k ..< P] (c + 1) pr1
        (h @ [Upload_buffer a b 0 d, r])) = Inr (c1, pr1a) \<longrightarrow> uploads es = P - Suc k"
      by blast
    have d: "dests_ok (int (start_page G)) (int k) ([Upload_buffer a b 0 d, r] @ es)"
      using es(2) r by (simp add: is_report_simps add.commute)
    have u: "uploads ([Upload_buffer a b 0 d, r] @ es) = Suc (uploads es)"
      using r by (simp add: is_report_simps)
    show "\<exists>es. fst (page_loop cload tt self G img cur tot f (k # [Suc k ..< P]) c pr h) = h @ es \<and>
        dests_ok (int (start_page G)) (int k) es \<and> uploads es \<le> P - k \<and>
        (\<forall>c1 pr1. snd (page_loop cload tt self G img cur tot f (k # [Suc k ..< P]) c pr h) =
           Inr (c1, pr1) \<longrightarrow> uploads es = P - k)"
      unfolding eq
      apply (rule exI[of _ "[Upload_buffer a b 0 d, r] @ es"])
      using es(1,3,4) d u kP by auto
  next
    fix a b d r r2 pr1
    let ?w = "Write_flash (addr G) 0 (int (start_page G) + int k - int c) (int c + 1)"
    assume r: "is_report r" "is_report r2"
      and eq: "page_loop cload tt self G img cur tot f (k # [Suc k ..< P]) c pr h =
        page_loop cload tt self G img cur tot f [Suc k ..< P] 0 pr1
          (h @ [Upload_buffer a b 0 d, r, r2, ?w])"
    from Suc.hyps(1)[OF n le, of 0 pr1 "h @ [Upload_buffer a b 0 d, r, r2, ?w]"]
    obtain es where es: "fst (page_loop cload tt self G img cur tot f [Suc k ..< P] 0 pr1
        (h @ [Upload_buffer a b 0 d, r, r2, ?w])) = (h @ [Upload_buffer a b 0 d, r, r2, ?w]) @ es"
      "dests_ok (int (start_page G)) (int (Suc k)) es" "uploads es \<le> P - Suc k"
      "\<forall>c1 pr1a. snd (page_loop cload tt self G img cur tot f [Suc k ..< P] 0 pr1
        (h @ [Upload_buffer a b 0 d, r, r2, ?w])) = Inr (c1, pr1a) \<longrightarrow> uploads es = P - Suc k"
      by blast
    have d: "dests_ok (int (start_page G)) (int k) ([Upload_buffer a b 0 d, r, r2, ?w] @ es)"
      using es(2) r by (simp add: is_report_simps add.commute)
    have u: "uploads ([Upload_buffer a b 0 d, r, r2, ?w] @ es) = Suc (uploads es)"
      using r by (simp add: is_report_simps)
    show "\<exists>es. fst (page_loop cload tt self G img cur tot f (k # [Suc k ..< P]) c pr h) = h @ es \<and>
        dests_ok (int (start_page G)) (int k) es \<and> uploads es \<le> P - k \<and>
        (\<forall>c1 pr1. snd (page_loop cload tt self G img cur tot f (k # [Suc k ..< P]) c pr h) =
           Inr (c1, pr1) \<longrightarrow> uploads es = P - k)"
      unfolding eq
      apply (rule exI[of _ "[Upload_buffer a b 0 d, r, r2, ?w] @ es"])
      using es(1,3,4) d u kP by auto
  next
    fix a b d r r2 pr1 re
    let ?w = "Write_flash (addr G) 0 (int (start_page G) + int k - int c) (int c + 1)"
    assume r: "is_report r" "is_report r2" "is_report re"
      and eq: "page_loop cload tt self G img cur tot f (k # [Suc k ..< P]) c pr h =
        (h @ [Upload_buffer a b 0 d, r, r2, ?w, re], Inl (Exception ''''))"
    have d: "dests_ok (int (start_page G)) (int k) [Upload_buffer a b 0 d, r, r2, ?w, re]"
      using r by (simp add: is_report_simps)
    have u: "uploads [Upload_buffer a b 0 d, r, r2, ?w, re] = 1"
      using r by (simp add: is_report_simps)
    show "\<exists>es. fst (page_loop cload tt self G img cur tot f (k # [Suc k ..< P]) c pr h) = h @ es \<and>
        dests_ok (int (start_page G)) (int k) es \<and> uploads es \<le> P - k \<and>
        (\<forall>c1 pr1. snd (page_loop cload tt self G img cur tot f (k # [Suc k ..< P]) c pr h) =
           Inr (c1, pr1) \<longrightarrow> uploads es = P - k)"
      unfolding eq
      apply (rule exI[of _ "[Upload_buffer a b 0 d, r, r2, ?w, re]"])
      using d u kP by auto
  qed
qed

lemma residual_write_dests:
  "\<exists>es. fst (residual_write cload tt self G cur tot (int P - 1) c pr h) = h @ es \<and>
     dests_ok (int (start_page G)) (int P) es"
proof -
  have "residual_write cload tt self G cur tot (int P - 1) c pr h =
      residual_write cload tt self G cur tot (int P - 1) c pr h" by (rule refl)
  from residual_write_cases[OF this] show ?thesis
  proof (elim disjE exE conjE)
    let ?w = "Write_flash (addr G) 0 (int (start_page G) + (int P - 1) - (int c - 1)) (int c)"
    fix r assume "0 < c" "is_report r"
      "residual_write cload tt self G cur tot (int P - 1) c pr h = (h @ [r, ?w], Inr ())"
    then show ?thesis by (intro exI[of _ "[r, ?w]"]) (simp add: is_report_simps)
  next
    let ?w = "Write_flash (addr G) 0 (int (start_page G) + (int P - 1) - (int c - 1)) (int c)"
    fix r re assume "0 < c" "is_report r" "is_report re"
      "residual_write cload tt self G cur tot (int P - 1) c pr h =
         (h @ [r, ?w, re], Inl (Exception ''''))"
    then show ?thesis by (intro exI[of _ "[r, ?w, re]"]) (simp add: is_report_simps)
  qed simp
qed

lemma internal_flash_dests:
  assumes lookup: "cload_targets cload h (from_string tt (target (target_of artifact))) = Some G"
  shows "\<exists>es. fst (internal_flash cload tt self artifact cur tot h) = h @ es \<and>
     dests_ok (int (start_page G)) 0 es"
proof (cases "content artifact = []")
  case True
  with lookup show ?thesis by (simp add: internal_flash_def)
next
  case ne: False
  show ?thesis
  proof (cases "int (length (content artifact)) >
           (int (flash_pages G) - int (start_page G)) * int (page_size G)")
    case True
    from internal_flash_too_big[OF lookup ne True, of self cur tot]
    obtain pre where "\<forall>e\<in>set pre. is_report e"
      "internal_flash cload tt self artifact cur tot h =
         (h @ pre, Inl (Exception ''Not enough space to flash the image file''))" by blast
    with dests_ok_reports[of pre] show ?thesis by (intro exI[of _ pre]) simp
  next
    case False
    let ?P = "page_count (length (content artifact)) (page_size G)"
    let ?f = "(100 * of_nat (page_size G)) / of_nat (length (content artifact)) :: rat"
    from internal_flash_loop[OF lookup ne False, of self cur tot]
    obtain pre where pre: "\<forall>e\<in>set pre. is_report e"
      and eq: "internal_flash cload tt self artifact cur tot h =
       (case page_loop cload tt self G (content artifact) cur tot ?f [0 ..< ?P] 0 0 (h @ pre) of
          (h3, Inl e) \<Rightarrow> (h3, Inl e)
        | (h3, Inr (ctr, pr)) \<Rightarrow>
            residual_write cload tt self G cur tot (int ?P - 1) ctr pr h3)"
      by blast
    have "0 \<le> ?P" by simp
    from page_loop_dests[OF this, of cload tt self G "content artifact" cur tot ?f 0 0 "h @ pre"]
    obtain es where es:
      "fst (page_loop cload tt self G (content artifact) cur tot ?f [0 ..< ?P] 0 0 (h @ pre)) =
         (h @ pre) @ es"
      "dests_ok (int (start_page G)) 0 es"
      "\<forall>c1 pr1. snd (page_loop cload tt self G (content artifact) cur tot ?f [0 ..< ?P] 0 0
          (h @ pre)) = Inr (c1, pr1) \<longrightarrow> uploads es = ?P"
      by auto
    note rp = dests_ok_reports[OF pre, of "int (start_page G)" 0]
    obtain h3 r3 where loop:
      "page_loop cload tt self G (content artifact) cur tot ?f [0 ..< ?P] 0 0 (h @ pre) = (h3, r3)"
      by (cases "page_loop cload tt self G (content artifact) cur tot ?f [0 ..< ?P] 0 0 (h @ pre)")
        auto
    with es(1) have h3: "h3 = h @ pre @ es" by simp
    show ?thesis
    proof (cases r3)
      case (Inl e)
      with eq loop h3 have "fst (internal_flash cload tt self artifact cur tot h) = h @ (pre @ es)"
        by simp
      moreover have "dests_ok (int (start_page G)) 0 (pre @ es)"
        using rp es(2) by (simp add: dests_ok_append)
      ultimately show ?thesis by blast
    next
      case (Inr cp)
      obtain c1 pr1 where cp: "cp = (c1, pr1)" by (cases cp) auto
      with Inr loop es(3) have up: "uploads es = ?P" by simp
      from residual_write_dests[of cload tt self G cur tot ?P c1 pr1 h3]
      obtain es2 where es2:
        "fst (residual_write cload tt self G cur tot (int ?P - 1) c1 pr1 h3) = h3 @ es2"
        "dests_ok (int (start_page G)) (int ?P) es2" by blast
      from eq loop Inr cp es2(1) h3
      have "fst (internal_flash cload tt self artifact cur tot h) = h @ (pre @ es @ es2)"
        by simp
      moreover have "dests_ok (int (start_page G)) 0 (pre @ es @ es2)"
        using rp es(2) es2(2) up by (simp add: dests_ok_append)
      ultimately show ?thesis by blast
    qed
  qed
qed

text \<open>
  C3: in the events of \<open>_internal_flash\<close> for an image of at least one byte, every
  \<open>write_flash\<close> of \<open>n\<close> pages has the destination
  \<open>start_page + k - (n - 1)\<close>, where \<open>k\<close> is the index of the page uploaded
  last: the predicate \<open>dests_ok\<close> counts the uploads and checks each write. When the
  image fits and the loop leaves a positive counter \<open>ctr\<close>, the next command is the
  write of \<open>ctr\<close> pages to \<open>start_page + (P - 1) - (ctr - 1)\<close>, \<open>P\<close> the
  page count \<open>ceil(len(image) / page_size)\<close>.
\<close>

theorem destination_derivation:
  assumes "cload_targets cload h (from_string tt (target (target_of artifact))) = Some G"
    and "content artifact \<noteq> []"
  shows "dests_ok (int (start_page G)) 0
           (new_events h (fst (internal_flash cload tt self artifact cur tot h))) \<and>
         (int (length (content artifact)) \<le>
            (int (flash_pages G) - int (start_page G)) * int (page_size G) \<longrightarrow>
          (\<exists>pre. (\<forall>e\<in>set pre. is_report e) \<and>
             (\<forall>h3 ctr pr.
                page_loop cload tt self G (content artifact) cur tot
                  ((100 * of_nat (page_size G)) / of_nat (length (content artifact)))
                  [0 ..< page_count (length (content artifact)) (page_size G)] 0 0 (h @ pre) =
                  (h3, Inr (ctr, pr)) \<and> 0 < ctr \<longrightarrow>
                (\<exists>r rest. is_report r \<and>
                   fst (internal_flash cload tt self artifact cur tot h) =
                     h3 @ r #
                     Write_flash (addr G) 0
                       (int (start_page G) +
                        (int (page_count (length (content artifact)) (page_size G)) - 1) -
                        (int ctr - 1))
                       (int ctr) # rest))))"
proof (intro conjI impI)
  from internal_flash_dests[OF assms(1), of self cur tot]
  show "dests_ok (int (start_page G)) 0
           (new_events h (fst (internal_flash cload tt self artifact cur tot h)))"
    by auto
next
  let ?P = "page_count (length (content artifact)) (page_size G)"
  let ?f = "(100 * of_nat (page_size G)) / of_nat (length (content artifact)) :: rat"
  assume "int (length (content artifact)) \<le>
            (int (flash_pages G) - int (start_page G)) * int (page_size G)"
  then have fits: "\<not> int (length (content artifact)) >
            (int (flash_pages G) - int (start_page G)) * int (page_size G)" by simp
  from internal_flash_loop[OF assms fits, of self cur tot]
  obtain pre where pre: "\<forall>e\<in>set pre. is_report e"
    and eq: "internal_flash cload tt self artifact cur tot h =
       (case page_loop cload tt self G (content artifact) cur tot ?f [0 ..< ?P] 0 0 (h @ pre) of
          (h3, Inl e) \<Rightarrow> (h3, Inl e)
        | (h3, Inr (ctr, pr)) \<Rightarrow>
            residual_write cload tt self G cur tot (int ?P - 1) ctr pr h3)"
    by blast
  have "\<exists>r rest. is_report r \<and>
          fst (internal_flash cload tt self artifact cur tot h) =
            h3 @ r # Write_flash (addr G) 0 (int (start_page G) + (int ?P - 1) - (int ctr - 1))
              (int ctr) # rest"
    if loop: "page_loop cload tt self G (content artifact) cur tot ?f [0 ..< ?P] 0 0 (h @ pre) =
        (h3, Inr (ctr, pr))" and pos: "0 < ctr" for h3 ctr pr
  proof -
    from eq loop have "internal_flash cload tt self artifact cur tot h =
        residual_write cload tt self G cur tot (int ?P - 1) ctr pr h3" by simp
    from residual_write_cases[OF this[symmetric]] pos show ?thesis by auto
  qed
  with pre show "\<exists>pre. (\<forall>e\<in>set pre. is_report e) \<and>
             (\<forall>h3 ctr pr.
                page_loop cload tt self G (content artifact) cur tot ?f [0 ..< ?P] 0 0 (h @ pre) =
                  (h3, Inr (ctr, pr)) \<and> 0 < ctr \<longrightarrow>
                (\<exists>r rest. is_report r \<and>
                   fst (internal_flash cload tt self artifact cur tot h) =
                     h3 @ r #
                     Write_flash (addr G) 0 (int (start_page G) + (int ?P - 1) - (int ctr - 1))
                       (int ctr) # rest))"
    by blast
qed

theorem destination_derivation_witness:
  "cload_targets ex_cload [] (from_string ex_types (target (target_of s3_artifact))) =
     Some s1_geometry \<and>
   content s3_artifact \<noteq> [] \<and>
   dests_ok (int (start_page s1_geometry)) 0
     (new_events [] (fst (internal_flash ex_cload ex_types ex_self s3_artifact 1 1 []))) \<and>
   write_dests (new_events [] (fst (internal_flash ex_cload ex_types ex_self s3_artifact 1 1 [])))
     = [16, 26]"
proof -
  have lookup: "cload_targets ex_cload [] (from_string ex_types (target (target_of s3_artifact))) =
     Some s1_geometry"
    by (simp add: ex_cload_def ex_types_def s3_artifact_def stm32_fw_def)
  have ne: "content s3_artifact \<noteq> []" by (simp add: s3_artifact_def)
  have run: "write_dests
      (new_events [] (fst (internal_flash ex_cload ex_types ex_self s3_artifact 1 1 []))) = [16, 26]"
    by (simp add: ex_simps s3_artifact_def)
  from destination_derivation[OF lookup ne, where self = ex_self and cur = 1 and tot = 1]
    lookup ne run
  show ?thesis
    by simp
qed

section \<open>The events of the flashing stage and of the deck pipeline\<close>

lemma engine_eventI:
  "is_report r \<Longrightarrow> r \<noteq> Print cold_notice \<Longrightarrow> engine_event r"
  "engine_event (Upload_buffer a b c d)" "engine_event (Write_flash a1 b1 c1 d1)"
  by (cases r; simp add: engine_event_def)+

lemma extend_events:
  assumes "\<exists>es. x = (h @ pre) @ es \<and> list_all P es" and "list_all P pre"
  shows "\<exists>es. x = h @ es \<and> list_all P es"
proof -
  from assms(1) obtain es where "x = (h @ pre) @ es" "list_all P es" by blast
  with assms(2) have "x = h @ (pre @ es) \<and> list_all P (pre @ es)" by simp
  then show ?thesis by blast
qed

lemma page_loop_engine_events:
  "\<exists>es. fst (page_loop cload tt self G img cur tot f idx c pr h) = h @ es \<and>
        list_all engine_event es"
proof (induction idx arbitrary: c pr h)
  case Nil
  then show ?case by simp
next
  case (Cons i rest)
  have "page_loop cload tt self G img cur tot f (i # rest) c pr h =
      page_loop cload tt self G img cur tot f (i # rest) c pr h" by (rule refl)
  from page_loop_step[OF this]
  show ?case
  proof (elim disjE exE conjE)
    assume "page_loop cload tt self G img cur tot f (i # rest) c pr h =
       (h, Inl (Exception ''Flashing terminated''))"
    then show ?thesis by simp
  next
    fix a b d r pr1
    assume r: "is_report r" "r \<noteq> Print cold_notice"
      and eq: "page_loop cload tt self G img cur tot f (i # rest) c pr h =
        page_loop cload tt self G img cur tot f rest (c + 1) pr1 (h @ [Upload_buffer a b 0 d, r])"
    show ?thesis unfolding eq
      by (rule extend_events[OF Cons.IH]) (simp add: engine_eventI r)
  next
    fix a b d r r2 pr1
    let ?w = "Write_flash (addr G) 0 (int (start_page G) + int i - int c) (int c + 1)"
    assume r: "is_report r" "is_report r2" "r \<noteq> Print cold_notice" "r2 \<noteq> Print cold_notice"
      and eq: "page_loop cload tt self G img cur tot f (i # rest) c pr h =
        page_loop cload tt self G img cur tot f rest 0 pr1 (h @ [Upload_buffer a b 0 d, r, r2, ?w])"
    show ?thesis unfolding eq
      by (rule extend_events[OF Cons.IH]) (simp add: engine_eventI r)
  next
    fix a b d r r2 pr1 re
    let ?w = "Write_flash (addr G) 0 (int (start_page G) + int i - int c) (int c + 1)"
    assume r: "is_report r" "is_report r2" "is_report re"
        "r \<noteq> Print cold_notice" "r2 \<noteq> Print cold_notice" "re \<noteq> Print cold_notice"
      and eq: "page_loop cload tt self G img cur tot f (i # rest) c pr h =
        (h @ [Upload_buffer a b 0 d, r, r2, ?w, re], Inl (Exception ''''))"
    show ?thesis unfolding eq
      by (intro exI[of _ "[Upload_buffer a b 0 d, r, r2, ?w, re]"]) (simp add: engine_eventI r)
  qed
qed

lemma residual_write_engine_events:
  "\<exists>es. fst (residual_write cload tt self G cur tot lp c pr h) = h @ es \<and>
     list_all engine_event es"
proof -
  have "residual_write cload tt self G cur tot lp c pr h =
      residual_write cload tt self G cur tot lp c pr h" by (rule refl)
  from residual_write_cases[OF this] show ?thesis
  proof (elim disjE exE conjE)
    let ?w = "Write_flash (addr G) 0 (int (start_page G) + lp - (int c - 1)) (int c)"
    fix r assume "is_report r" "r \<noteq> Print cold_notice"
      "residual_write cload tt self G cur tot lp c pr h = (h @ [r, ?w], Inr ())"
    then show ?thesis by (intro exI[of _ "[r, ?w]"]) (simp add: engine_eventI)
  next
    let ?w = "Write_flash (addr G) 0 (int (start_page G) + lp - (int c - 1)) (int c)"
    fix r re assume "is_report r" "is_report re" "r \<noteq> Print cold_notice"
      "re \<noteq> Print cold_notice"
      "residual_write cload tt self G cur tot lp c pr h = (h @ [r, ?w, re], Inl (Exception ''''))"
    then show ?thesis by (intro exI[of _ "[r, ?w, re]"]) (simp add: engine_eventI)
  qed simp
qed

lemma reports_engine_events:
  "\<forall>e\<in>set pre. is_report e \<Longrightarrow> Print cold_notice \<notin> set pre \<Longrightarrow> list_all engine_event pre"
  by (induction pre) (auto simp: engine_eventI)

lemma internal_flash_engine_events:
  "\<exists>es. fst (internal_flash cload tt self artifact cur tot h) = h @ es \<and>
     list_all engine_event es"
proof (cases "cload_targets cload h (from_string tt (target (target_of artifact)))")
  case None
  then show ?thesis by (simp add: internal_flash_def)
next
  case (Some G)
  note lookup = this
  show ?thesis
  proof (cases "content artifact = []")
    case True
    with lookup show ?thesis by (simp add: internal_flash_def)
  next
    case ne: False
    show ?thesis
    proof (cases "int (length (content artifact)) >
           (int (flash_pages G) - int (start_page G)) * int (page_size G)")
      case True
      from internal_flash_too_big[OF lookup ne True, of self cur tot]
      obtain pre where "\<forall>e\<in>set pre. is_report e" "Print cold_notice \<notin> set pre"
        "internal_flash cload tt self artifact cur tot h =
           (h @ pre, Inl (Exception ''Not enough space to flash the image file''))" by blast
      with reports_engine_events[of pre] show ?thesis by (intro exI[of _ pre]) simp
    next
      case False
      let ?P = "page_count (length (content artifact)) (page_size G)"
      let ?f = "(100 * of_nat (page_size G)) / of_nat (length (content artifact)) :: rat"
      from internal_flash_loop[OF lookup ne False, of self cur tot]
      obtain pre where pre: "\<forall>e\<in>set pre. is_report e" "Print cold_notice \<notin> set pre"
        and eq: "internal_flash cload tt self artifact cur tot h =
         (case page_loop cload tt self G (content artifact) cur tot ?f [0 ..< ?P] 0 0 (h @ pre) of
            (h3, Inl e) \<Rightarrow> (h3, Inl e)
          | (h3, Inr (ctr, pr)) \<Rightarrow>
              residual_write cload tt self G cur tot (int ?P - 1) ctr pr h3)"
        by blast
      note rp = reports_engine_events[OF pre]
      from page_loop_engine_events[of cload tt self G "content artifact" cur tot ?f "[0 ..< ?P]" 0 0
          "h @ pre"]
      obtain es where es:
        "fst (page_loop cload tt self G (content artifact) cur tot ?f [0 ..< ?P] 0 0 (h @ pre)) =
           (h @ pre) @ es" "list_all engine_event es"
        by blast
      obtain h3 r3 where loop:
        "page_loop cload tt self G (content artifact) cur tot ?f [0 ..< ?P] 0 0 (h @ pre) = (h3, r3)"
        by (cases "page_loop cload tt self G (content artifact) cur tot ?f [0 ..< ?P] 0 0 (h @ pre)")
          auto
      with es(1) have h3: "h3 = h @ pre @ es" by simp
      show ?thesis
      proof (cases r3)
        case (Inl e)
        with eq loop h3 have "fst (internal_flash cload tt self artifact cur tot h) = h @ (pre @ es)"
          by simp
        moreover have "list_all engine_event (pre @ es)" using rp es(2) by simp
        ultimately show ?thesis by blast
      next
        case (Inr cp)
        obtain c1 pr1 where cp: "cp = (c1, pr1)" by (cases cp) auto
        from residual_write_engine_events[of cload tt self G cur tot "int ?P - 1" c1 pr1 h3]
        obtain es2 where es2:
          "fst (residual_write cload tt self G cur tot (int ?P - 1) c1 pr1 h3) = h3 @ es2"
          "list_all engine_event es2" by blast
        from eq loop Inr cp es2(1) h3
        have "fst (internal_flash cload tt self artifact cur tot h) = h @ (pre @ es @ es2)"
          by simp
        moreover have "list_all engine_event (pre @ es @ es2)" using rp es(2) es2(2) by simp
        ultimately show ?thesis by blast
      qed
    qed
  qed
qed

lemma flash_flash_from_engine_events:
  "\<exists>es. fst (flash_flash_from cload tt self i total_files artifacts h) = h @ es \<and>
     list_all engine_event es"
proof (induction artifacts arbitrary: i h)
  case Nil
  then show ?case by simp
next
  case (Cons a rest)
  from internal_flash_engine_events[of cload tt self a "int i + 1" total_files h]
  obtain es where es: "fst (internal_flash cload tt self a (int i + 1) total_files h) = h @ es"
    "list_all engine_event es" by blast
  obtain h1 r1 where run: "internal_flash cload tt self a (int i + 1) total_files h = (h1, r1)"
    by (cases "internal_flash cload tt self a (int i + 1) total_files h") auto
  with es(1) have h1: "h1 = h @ es" by simp
  show ?case
  proof (cases r1)
    case (Inl e)
    with run h1 es(2) show ?thesis by (intro exI[of _ es]) simp
  next
    case (Inr u)
    with run h1 have eq: "flash_flash_from cload tt self i total_files (a # rest) h =
        flash_flash_from cload tt self (i + 1) total_files rest (h @ es)" by simp
    show ?thesis unfolding eq by (rule extend_events[OF Cons.IH]) (rule es(2))
  qed
qed

lemma page_loop_warm:
  "page_loop cload tt (self\<lparr>warm_booted := b\<rparr>) G img cur tot f idx c pr h =
   page_loop cload tt self G img cur tot f idx c pr h"
  by (induction idx arbitrary: c pr h)
    (simp_all add: page_loop.simps Let_def terminate_requested_def report_flash_error_def
      cong: if_cong)

lemma internal_flash_warm:
  "internal_flash cload tt (self\<lparr>warm_booted := b\<rparr>) artifact cur tot h =
   internal_flash cload tt self artifact cur tot h"
  by (simp add: internal_flash_def residual_write_def page_loop_warm report_flash_error_def
      Let_def cong: if_cong option.case_cong)

lemma flash_flash_from_warm:
  "flash_flash_from cload tt (self\<lparr>warm_booted := b\<rparr>) i total_files artifacts h =
   flash_flash_from cload tt self i total_files artifacts h"
  by (induction artifacts arbitrary: i h) (simp_all add: internal_flash_warm)

lemma wait_started_extends:
  "\<exists>es. fst (wait_started n app i d h) = h @ es"
proof (induction n arbitrary: d h)
  case 0
  then show ?case by simp
next
  case (Suc n)
  show ?case
  proof (cases "is_started d")
    case True
    then show ?thesis by simp
  next
    case False
    let ?h1 = "h @ [Print ''Deck not yet started ...'', Sleep 500, Query_decks]"
    show ?thesis
    proof (cases "map_of (query_decks app ?h1) i")
      case None
      with False show ?thesis by (simp add: Let_def)
    next
      case (Some d1)
      with False have eq: "wait_started (Suc n) app i d h = wait_started n app i d1 ?h1"
        by (simp add: Let_def)
      from Suc.IH[of d1 ?h1] show ?thesis unfolding eq by (metis append_assoc)
    qed
  qed
qed

lemma deck_loop_step:
  "(\<exists>pre r. deck_loop n app self arts ts fa ((i, d) # rest) h = (h @ pre, r)) \<or>
   (\<exists>pre. deck_loop n app self arts ts fa ((i, d) # rest) h =
           deck_loop n app self arts ts fa rest (h @ pre))"
proof (cases "terminate_requested self h")
  case True
  then have "deck_loop n app self arts ts fa ((i, d) # rest) h =
      (h @ [], Some (Inl (Exception ''Flashing terminated'')))" by simp
  then show ?thesis by blast
next
  case nt: False
  show ?thesis
  proof (cases "(\<not> fa) \<and> length (filter (\<lambda>t. t = deck_fw (name d)) ts) = 0")
    case True
    with nt have "deck_loop n app self arts ts fa ((i, d) # rest) h =
        deck_loop n app self arts ts fa rest (h @ [Print (''Skipping '' @ name d)])"
      by (simp add: Let_def)
    then show ?thesis by blast
  next
    case sel: False
    show ?thesis
    proof (cases "length (filter (\<lambda>a. target_of a = deck_fw (name d)) arts) = 0")
      case True
      with nt sel have "deck_loop n app self arts ts fa ((i, d) # rest) h =
          deck_loop n app self arts ts fa rest
            (h @ [Print (''Skipping '' @ name d @ '', no artifact for it in the .zip'')])"
        by (auto simp add: Let_def)
      then show ?thesis by blast
    next
      case art: False
      define h2 where "h2 = (if progress_cb self
            then h @ [Progress_cb (''Updating deck '' @ name d) 50] else h) @
          [Print (''Handling '' @ name d)]"
      have h2: "\<exists>pre. h2 = h @ pre" by (simp add: h2_def)
      from wait_started_extends[of n app i d h2] h2
      obtain pre3 where h3: "fst (wait_started n app i d h2) = h @ pre3"
        by (metis append_assoc)
      obtain h3 w where ws: "wait_started n app i d h2 = (h3, w)"
        by (cases "wait_started n app i d h2") auto
      with h3 have h3eq: "h3 = h @ pre3" by simp
      have unf: "deck_loop n app self arts ts fa ((i, d) # rest) h =
        (case w of
           None \<Rightarrow> (h3, None)
         | Some (Inl e) \<Rightarrow> (h3, Some (Inl e))
         | Some (Inr d1) \<Rightarrow>
             if \<not> supports_fw_upgrade d1
             then deck_loop n app self arts ts fa rest
                    (h3 @ [Print (''Deck '' @ name d1 @
                             '' does not support firmware update, skipping!'')])
             else if \<not> is_fw_upgrade_required d1
             then deck_loop n app self arts ts fa rest
                    (h3 @ [Print (''Deck '' @ name d1 @ '' firmware up to date, skipping'')])
             else if \<not> is_bootloader_active d1
             then deck_loop n app self arts ts fa rest
                    (h3 @ [Print (''Error: Deck '' @ name d1 @
                             '' bootloader not active, skipping!'')])
             else
               let h4 = h3 @ [Write_sync i 0
                    (content (filter (\<lambda>a. target_of a = deck_fw (name d)) arts ! 0))] in
               if write_sync app h4
               then deck_loop n app self arts ts fa rest
                      (if progress_cb self
                       then h4 @ [Progress_cb
                                    (''Deck '' @ name d1 @ '' updated succesfully!'') 75]
                       else h4)
               else ((if progress_cb self
                      then h4 @ [Progress_cb (''Failed to update deck '' @ name d1) 0]
                      else h4),
                     Some (Inl (Exception (''Failed to update deck '' @ name d1)))))"
        using nt sel art ws by (auto simp add: Let_def h2_def)
      show ?thesis
      proof (cases w)
        case None
        with unf h3eq show ?thesis by auto
      next
        case (Some x)
        show ?thesis
        proof (cases x)
          case (Inl e)
          with unf Some h3eq show ?thesis by auto
        next
          case (Inr d1)
          show ?thesis unfolding unf Some Inr h3eq
            apply (simp add: Let_def del: append_assoc)
            apply (intro conjI impI)
            apply (metis append_assoc)+
            done
        qed
      qed
    qed
  qed
qed

lemma deck_loop_extends:
  "\<exists>es. fst (deck_loop n app self arts ts fa decks h) = h @ es"
proof (induction decks arbitrary: h)
  case Nil
  then show ?case by simp
next
  case (Cons p rest)
  obtain i d where p: "p = (i, d)" by (cases p) auto
  from deck_loop_step[of n app self arts ts fa i d rest h]
  show ?case unfolding p
  proof (elim disjE exE)
    fix pre r assume "deck_loop n app self arts ts fa ((i, d) # rest) h = (h @ pre, r)"
    then show "\<exists>es. fst (deck_loop n app self arts ts fa ((i, d) # rest) h) = h @ es" by simp
  next
    fix pre assume eq: "deck_loop n app self arts ts fa ((i, d) # rest) h =
           deck_loop n app self arts ts fa rest (h @ pre)"
    from Cons.IH[of "h @ pre"]
    show "\<exists>es. fst (deck_loop n app self arts ts fa ((i, d) # rest) h) = h @ es"
      unfolding eq by (metis append_assoc)
  qed
qed

lemma flash_deck_extends:
  "\<exists>es. fst (flash_deck n app self arts ts h) = h @ es"
proof -
  define h2 where "h2 = (if progress_cb self
                then h @ [Progress_cb ''Detecting deck to be updated'' 25] else h) @
              [Scf_open, Get_mems]"
  have h2: "\<exists>pre. h2 = h @ pre" by (simp add: h2_def)
  show ?thesis
  proof (cases "get_mems app h2 = 0")
    case True
    then have "flash_deck n app self arts ts h = (h2 @ [Scf_close], Some (Inr ()))"
      by (simp add: flash_deck_def Let_def h2_def)
    with h2 show ?thesis by (metis append_assoc fst_conv)
  next
    case False
    let ?h3 = "h2 @ [Query_decks]"
    from deck_loop_extends[of n app self arts ts "length ts = 0" "query_decks app ?h3" ?h3] h2
    obtain es where es: "fst (deck_loop n app self arts ts (length ts = 0)
        (query_decks app ?h3) ?h3) = h @ es"
      by (metis append_assoc)
    obtain h4 r where dl: "deck_loop n app self arts ts (length ts = 0)
        (query_decks app ?h3) ?h3 = (h4, r)"
      by (cases "deck_loop n app self arts ts (length ts = 0) (query_decks app ?h3) ?h3") auto
    with es have h4: "h4 = h @ es" by simp
    from False dl have "flash_deck n app self arts ts h =
        (case r of None \<Rightarrow> (h4, None) | Some x \<Rightarrow> (h4 @ [Scf_close], Some x))"
      by (simp add: flash_deck_def Let_def h2_def)
    with h4 show ?thesis by (cases r) auto
  qed
qed

lemma start_bootloader_extends:
  "\<exists>es. fst (start_bootloader cload bv tt self w cf h) = h @ es"
proof -
  have "\<exists>es. fst (enter_bootloader cload tt (self\<lparr>warm_booted := w\<rparr>) w cf h) = h @ es"
    by (simp add: enter_bootloader_def Let_def)
  then obtain es where es: "fst (enter_bootloader cload tt (self\<lparr>warm_booted := w\<rparr>) w cf h) = h @ es"
    by blast
  obtain h1 st where eb: "enter_bootloader cload tt (self\<lparr>warm_booted := w\<rparr>) w cf h = (h1, st)"
    by (cases "enter_bootloader cload tt (self\<lparr>warm_booted := w\<rparr>) w cf h") auto
  with es have "h1 = h @ es" by simp
  with eb show ?thesis by (simp add: start_bootloader_def Let_def)
qed

lemma start_bootloader_warm_booted:
  "warm_booted (fst (snd (start_bootloader cload bv tt self w cf h))) = w"
  by (simp add: start_bootloader_def Let_def split: prod.splits)

lemma update_decks_warm_enters:
  assumes "warm_booted self" and "length targets = 0 \<or> length deck_targets > 0"
  shows "\<exists>t es. fst (update_decks n cload app bv tt self deck_artifacts deck_targets targets cf h) =
           h @ es \<and> Reset_to_firmware t \<in> set es"
proof -
  define h4 where "h4 = close (reset_to_firmware cload bv tt (if progress_cb self
                    then h @ [Progress_cb ''Restarting firmware to update decks.'' 0] else h)) @
                    [Sleep 3]"
  have "\<exists>t pre. h4 = h @ pre \<and> Reset_to_firmware t \<in> set pre"
    by (simp add: h4_def close_def reset_to_firmware_def)
  then obtain t pre where pre: "h4 = h @ pre" "Reset_to_firmware t \<in> set pre" by blast
  from flash_deck_extends[of n app self deck_artifacts deck_targets h4]
  obtain es5 where es5: "fst (flash_deck n app self deck_artifacts deck_targets h4) = h4 @ es5"
    by blast
  obtain h5 r where fd: "flash_deck n app self deck_artifacts deck_targets h4 = (h5, r)"
    by (cases "flash_deck n app self deck_artifacts deck_targets h4") auto
  with es5 have h5: "h5 = h4 @ es5" by simp
  define h6 where "h6 = (if progress_cb self
                           then h5 @ [Progress_cb ''Deck updated! Restarting firmware.'' 100]
                           else h5)"
  have "\<exists>x. h6 = h5 @ x" by (simp add: h6_def)
  then obtain x6 where x6: "h6 = h5 @ x6" by blast
  from start_bootloader_extends[of cload bv tt self True cf h6]
  obtain es7 where es7: "fst (start_bootloader cload bv tt self True cf h6) = h6 @ es7" by blast
  have unf: "update_decks n cload app bv tt self deck_artifacts deck_targets targets cf h =
     (case r of
        None \<Rightarrow> (h5, self, None)
      | Some (Inl e) \<Rightarrow> (h5, self, Some (Inl e))
      | Some (Inr u) \<Rightarrow>
          (case start_bootloader cload bv tt self True cf h6 of
             (h7, self1, started) \<Rightarrow> (h7, self1, Some (Inr ''Deck update complete.''))))"
    using assms fd
    by (auto simp add: update_decks_def Let_def h4_def h6_def split: option.splits sum.splits)
  have "\<exists>y. fst (update_decks n cload app bv tt self deck_artifacts deck_targets targets cf h) =
      h4 @ y"
  proof (cases r)
    case None
    with unf h5 show ?thesis by simp
  next
    case (Some s)
    show ?thesis
    proof (cases s)
      case (Inl e)
      with unf Some h5 show ?thesis by simp
    next
      case (Inr u)
      with unf Some have "fst (update_decks n cload app bv tt self deck_artifacts deck_targets
          targets cf h) = fst (start_bootloader cload bv tt self True cf h6)"
        by (simp split: prod.splits)
      with es7 x6 h5 show ?thesis by simp
    qed
  qed
  then obtain y where "fst (update_decks n cload app bv tt self deck_artifacts deck_targets
      targets cf h) = h4 @ y" by blast
  with pre have "fst (update_decks n cload app bv tt self deck_artifacts deck_targets
      targets cf h) = h @ (pre @ y) \<and> Reset_to_firmware t \<in> set (pre @ y)" by simp
  then show ?thesis by blast
qed

lemma get_platform_id_warm [simp]:
  "get_platform_id bv (self\<lparr>warm_booted := b\<rparr>) = get_platform_id bv self"
  by (simp add: get_platform_id_def)

lemma flash_with_artifacts_cold_warm:
  assumes cold: "\<not> warm_booted self"
  shows "\<exists>es. list_all engine_event es \<and>
     ((\<exists>e. flash_with_artifacts n cload app bv tt self artifacts targets cf h =
              (h @ es, self, Some (Inl e)) \<and>
           flash_with_artifacts n cload app bv tt (self\<lparr>warm_booted := True\<rparr>) artifacts targets cf h =
              (h @ es, self\<lparr>warm_booted := True\<rparr>, Some (Inl e))) \<or>
      ((targets = [] \<or> (\<exists>t\<in>set targets. platform t = ''deck'')) \<and>
       (\<exists>fin. is_report fin \<and> fin \<noteq> Print cold_notice \<and>
          flash_with_artifacts n cload app bv tt self artifacts targets cf h =
            (h @ es @ [Print cold_notice, fin], self, Some (Inr ()))) \<and>
       (\<exists>t es2. fst (flash_with_artifacts n cload app bv tt (self\<lparr>warm_booted := True\<rparr>)
                      artifacts targets cf h) = h @ es @ es2 \<and>
                 Reset_to_firmware t \<in> set es2)) \<or>
      (\<not> (targets = [] \<or> (\<exists>t\<in>set targets. platform t = ''deck'')) \<and>
       (\<exists>fin. is_report fin \<and> fin \<noteq> Print cold_notice \<and>
          flash_with_artifacts n cload app bv tt self artifacts targets cf h =
            (h @ es @ [fin], self, Some (Inr ())) \<and>
          flash_with_artifacts n cload app bv tt (self\<lparr>warm_booted := True\<rparr>) artifacts targets cf h =
            (h @ es @ [fin], self\<lparr>warm_booted := True\<rparr>, Some (Inr ())))))"
proof -
  let ?W = "self\<lparr>warm_booted := True\<rparr>"
  define pid where "pid = get_platform_id bv self"
  define fts where "fts = filter (\<lambda>t. platform t = pid) targets"
  define dts where "dts = filter (\<lambda>t. platform t = ''deck'') targets"
  define fas where "fas = filter (\<lambda>a. platform (target_of a) = pid) artifacts"
  define das where "das = filter (\<lambda>a. platform (target_of a) = ''deck'') artifacts"
  define stage where "stage = (if length targets = 0 \<or> length fts > 0
              then flash_flash cload tt self fas fts h else (h, Inr ()))"
  have stageW: "(if length targets = 0 \<or> length fts > 0
              then flash_flash cload tt ?W fas fts h else (h, Inr ())) = stage"
    by (simp add: stage_def flash_flash_def flash_flash_from_warm)
  have scope: "(length targets = 0 \<or> length dts > 0) =
      (targets = [] \<or> (\<exists>t\<in>set targets. platform t = ''deck''))"
    by (auto simp add: dts_def filter_empty_conv)
  have "\<exists>es. fst stage = h @ es \<and> list_all engine_event es"
    using flash_flash_from_engine_events[of cload tt self 0 "int (length fas)" fas h]
    by (simp add: stage_def flash_flash_def)
  then obtain es where es: "fst stage = h @ es" "list_all engine_event es" by blast
  obtain h1 r1 where st: "stage = (h1, r1)" by (cases stage) auto
  with es(1) have h1: "h1 = h @ es" by simp
  have unfC: "flash_with_artifacts n cload app bv tt self artifacts targets cf h =
      (case stage of
          (h1, Inl e) \<Rightarrow> (h1, self, Some (Inl e))
        | (h1, Inr u) \<Rightarrow>
            (case update_decks n cload app bv tt self das dts targets cf h1 of
               (h2, self1, None) \<Rightarrow> (h2, self1, None)
             | (h2, self1, Some (Inl e)) \<Rightarrow> (h2, self1, Some (Inl e))
             | (h2, self1, Some (Inr deck_update_msg)) \<Rightarrow>
                 (h2 @ [if progress_cb self1
                        then Progress_cb (msg_flashing_done (int (length fas)) deck_update_msg) 100
                        else Print ''''],
                  self1, Some (Inr ()))))"
    by (simp only: flash_with_artifacts_def Let_def pid_def fts_def dts_def fas_def das_def
        stage_def)
  have unfW: "flash_with_artifacts n cload app bv tt ?W artifacts targets cf h =
      (case stage of
          (h1, Inl e) \<Rightarrow> (h1, ?W, Some (Inl e))
        | (h1, Inr u) \<Rightarrow>
            (case update_decks n cload app bv tt ?W das dts targets cf h1 of
               (h2, self1, None) \<Rightarrow> (h2, self1, None)
             | (h2, self1, Some (Inl e)) \<Rightarrow> (h2, self1, Some (Inl e))
             | (h2, self1, Some (Inr deck_update_msg)) \<Rightarrow>
                 (h2 @ [if progress_cb self1
                        then Progress_cb (msg_flashing_done (int (length fas)) deck_update_msg) 100
                        else Print ''''],
                  self1, Some (Inr ()))))"
    unfolding stageW[symmetric]
    by (simp only: flash_with_artifacts_def Let_def pid_def fts_def dts_def fas_def das_def
        get_platform_id_warm)
  show ?thesis
  proof (cases r1)
    case (Inl e)
    with unfC unfW st h1 es(2) show ?thesis by (intro exI[of _ es]) simp
  next
    case (Inr u)
    show ?thesis
    proof (cases "length targets = 0 \<or> length dts > 0")
      case True
      define fin where "fin = (if progress_cb self
          then Progress_cb (msg_flashing_done (int (length fas))
                 ''Deck update skipped in ColdBoot mode.'') 100
          else Print '''')"
      have fin: "is_report fin" "fin \<noteq> Print cold_notice"
        by (simp_all add: fin_def cold_notice_def)
      have c: "flash_with_artifacts n cload app bv tt self artifacts targets cf h =
            (h @ es @ [Print cold_notice, fin], self, Some (Inr ()))"
        using unfC st Inr True cold h1
        by (simp add: update_decks_def fin_def cold_notice_def)
      from update_decks_warm_enters[of ?W targets dts n cload app bv tt das cf h1] True
      obtain t es2 where es2:
        "fst (update_decks n cload app bv tt ?W das dts targets cf h1) = h1 @ es2"
        "Reset_to_firmware t \<in> set es2" by auto
      have "\<exists>y. fst (flash_with_artifacts n cload app bv tt ?W artifacts targets cf h) =
          fst (update_decks n cload app bv tt ?W das dts targets cf h1) @ y"
        using unfW st Inr by (auto split: prod.splits option.splits sum.splits)
      then obtain y where
        "fst (flash_with_artifacts n cload app bv tt ?W artifacts targets cf h) =
          fst (update_decks n cload app bv tt ?W das dts targets cf h1) @ y" by blast
      with es2 h1 have w: "fst (flash_with_artifacts n cload app bv tt ?W artifacts targets cf h) =
          h @ es @ (es2 @ y) \<and> Reset_to_firmware t \<in> set (es2 @ y)" by simp
      from True scope have sc: "targets = [] \<or> (\<exists>t\<in>set targets. platform t = ''deck'')" by simp
      show ?thesis
        apply (rule exI[of _ es])
        apply (rule conjI[OF es(2)])
        apply (rule disjI2, rule disjI1)
        using sc fin c w by blast
    next
      case False
      define fin where "fin = (if progress_cb self
          then Progress_cb (msg_flashing_done (int (length fas)) ''Deck update skipped.'') 100
          else Print '''')"
      have fin: "is_report fin" "fin \<noteq> Print cold_notice"
        by (simp_all add: fin_def cold_notice_def)
      have c: "flash_with_artifacts n cload app bv tt self artifacts targets cf h =
            (h @ es @ [fin], self, Some (Inr ()))"
        using unfC st Inr False h1 by (simp add: update_decks_def fin_def)
      have w: "flash_with_artifacts n cload app bv tt ?W artifacts targets cf h =
            (h @ es @ [fin], ?W, Some (Inr ()))"
        using unfW st Inr False h1 by (simp add: update_decks_def fin_def)
      from False scope have sc: "\<not> (targets = [] \<or> (\<exists>t\<in>set targets. platform t = ''deck''))"
        by simp
      show ?thesis
        apply (rule exI[of _ es])
        apply (rule conjI[OF es(2)])
        apply (rule disjI2, rule disjI2)
        using sc fin c w by blast
    qed
  qed
qed

lemma report_not_deck: "is_report r \<Longrightarrow> \<not> deck_pipeline_event r"
  by (cases r) simp_all

text \<open>
  C8 asks that on a cold-booted session the notice
  \<open>Skipping updating deck on coldboot\<close> is printed whenever the list of targets is
  empty or has a deck target. The notice is printed in the deck step, which a call that
  raises earlier does not reach: a raw binary given with no targets makes \<open>flash\<close>
  raise before it does anything, and a bundle whose STM32 image is one byte too long,
  given with the STM32 and a deck target, makes \<open>_internal_flash\<close> raise. Neither
  call prints the notice.
\<close>

theorem cold_abort_prints_no_notice:
  "\<not> warm_booted ex_self \<and>
   flash 0 ex_cload ex_app ex_versions ex_types ex_self s9_file [] None [] =
     ([], ex_self, Some (Inl (Exception ''Cannot flash a .bin to more than one target!''))) \<and>
   Print cold_notice \<notin> set (new_events []
      (fst (flash 0 ex_cload ex_app ex_versions ex_types ex_self s9_file [] None []))) \<and>
   platform lighthouse_fw = ''deck'' \<and>
   snd (snd (flash 0 ex_cload ex_app ex_versions ex_types ex_self s4_bundle
      [stm32_fw, lighthouse_fw] None [])) =
     Some (Inl (Exception ''Not enough space to flash the image file'')) \<and>
   Print cold_notice \<notin> set (new_events []
      (fst (flash 0 ex_cload ex_app ex_versions ex_types ex_self s4_bundle
         [stm32_fw, lighthouse_fw] None [])))"
proof -
  have a: "flash 0 ex_cload ex_app ex_versions ex_types ex_self s9_file [] None [] =
     ([], ex_self, Some (Inl (Exception ''Cannot flash a .bin to more than one target!'')))"
    by (simp add: flash_simps s9_file_def)
  have b: "flash 0 ex_cload ex_app ex_versions ex_types ex_self s4_bundle
      [stm32_fw, lighthouse_fw] None [] =
     ([Progress_cb (msg_starting 1 1) 0,
       Progress_cb ''Error: Not enough space to flash the image file.'' 0],
      ex_self, Some (Inl (Exception ''Not enough space to flash the image file'')))"
    by (simp add: ex_simps flash_simps s4_bundle_def lighthouse_fw_def py_int_def)
  show ?thesis
    unfolding a b
    by (simp add: ex_self_def lighthouse_fw_def cold_notice_def new_events_def)
qed

text \<open>
  C8, as the code has it: on a session that was not warm booted, \<open>flash\<close> never
  enters the deck pipeline: among its events there is no reset to firmware, no closing or
  opening of a link, no deck enumeration and no deck write. The notice
  \<open>Skipping updating deck on coldboot\<close> is printed exactly when the call returns
  normally and the list of targets is empty or has a deck target; a call that raises
  while reading the bundle or in the flashing stage does not print it. The calls that
  print it are also exactly the calls that would enter the pipeline on a warm-booted
  session. The cold call always returns.
\<close>

theorem cold_boot_skips_decks:
  assumes "\<not> warm_booted self"
  shows "(\<forall>e\<in>set (new_events h (fst (flash n cload app bv tt self filename targets cf h))).
            \<not> deck_pipeline_event e) \<and>
         ((Print cold_notice \<in>
             set (new_events h (fst (flash n cload app bv tt self filename targets cf h)))) =
          (snd (snd (flash n cload app bv tt self filename targets cf h)) = Some (Inr ()) \<and>
           (targets = [] \<or> (\<exists>t\<in>set targets. platform t = ''deck'')))) \<and>
         ((Print cold_notice \<in>
             set (new_events h (fst (flash n cload app bv tt self filename targets cf h)))) =
          (\<exists>e\<in>set (new_events h
                  (fst (flash n cload app bv tt (self\<lparr>warm_booted := True\<rparr>) filename targets cf h))).
             deck_pipeline_event e)) \<and>
         snd (snd (flash n cload app bv tt self filename targets cf h)) \<noteq> None"
proof (cases "fetch_artifacts filename targets")
  case (Inl e)
  then show ?thesis by (simp add: flash_def new_events_def)
next
  case (Inr artifacts)
  let ?W = "self\<lparr>warm_booted := True\<rparr>"
  have fc: "flash n cload app bv tt self filename targets cf h =
      flash_with_artifacts n cload app bv tt self artifacts targets cf h"
    and fw: "flash n cload app bv tt ?W filename targets cf h =
      flash_with_artifacts n cload app bv tt ?W artifacts targets cf h"
    using Inr by (simp_all add: flash_def)
  from flash_with_artifacts_cold_warm[OF assms, of n cload app bv tt artifacts targets cf h]
  obtain es where es: "list_all engine_event es"
    and cases: "(\<exists>e. flash_with_artifacts n cload app bv tt self artifacts targets cf h =
              (h @ es, self, Some (Inl e)) \<and>
           flash_with_artifacts n cload app bv tt ?W artifacts targets cf h =
              (h @ es, ?W, Some (Inl e))) \<or>
      ((targets = [] \<or> (\<exists>t\<in>set targets. platform t = ''deck'')) \<and>
       (\<exists>fin. is_report fin \<and> fin \<noteq> Print cold_notice \<and>
          flash_with_artifacts n cload app bv tt self artifacts targets cf h =
            (h @ es @ [Print cold_notice, fin], self, Some (Inr ()))) \<and>
       (\<exists>t es2. fst (flash_with_artifacts n cload app bv tt ?W artifacts targets cf h) =
                   h @ es @ es2 \<and> Reset_to_firmware t \<in> set es2)) \<or>
      (\<not> (targets = [] \<or> (\<exists>t\<in>set targets. platform t = ''deck'')) \<and>
       (\<exists>fin. is_report fin \<and> fin \<noteq> Print cold_notice \<and>
          flash_with_artifacts n cload app bv tt self artifacts targets cf h =
            (h @ es @ [fin], self, Some (Inr ())) \<and>
          flash_with_artifacts n cload app bv tt ?W artifacts targets cf h =
            (h @ es @ [fin], ?W, Some (Inr ()))))"
    by blast
  from es have nodeck: "\<forall>e\<in>set es. \<not> deck_pipeline_event e"
    and nonotice: "Print cold_notice \<notin> set es"
    by (auto simp add: list_all_iff engine_event_def)
  from cases consider
      (fail) e where
        "flash_with_artifacts n cload app bv tt self artifacts targets cf h =
              (h @ es, self, Some (Inl e))"
        "flash_with_artifacts n cload app bv tt ?W artifacts targets cf h =
              (h @ es, ?W, Some (Inl e))"
    | (scope) fin t es2 where
        "targets = [] \<or> (\<exists>t\<in>set targets. platform t = ''deck'')"
        "is_report fin" "fin \<noteq> Print cold_notice"
        "flash_with_artifacts n cload app bv tt self artifacts targets cf h =
            (h @ es @ [Print cold_notice, fin], self, Some (Inr ()))"
        "fst (flash_with_artifacts n cload app bv tt ?W artifacts targets cf h) = h @ es @ es2"
        "Reset_to_firmware t \<in> set es2"
    | (noscope) fin where
        "\<not> (targets = [] \<or> (\<exists>t\<in>set targets. platform t = ''deck''))"
        "is_report fin" "fin \<noteq> Print cold_notice"
        "flash_with_artifacts n cload app bv tt self artifacts targets cf h =
            (h @ es @ [fin], self, Some (Inr ()))"
        "flash_with_artifacts n cload app bv tt ?W artifacts targets cf h =
            (h @ es @ [fin], ?W, Some (Inr ()))"
    by blast
  then show ?thesis
  proof cases
    case fail
    with nodeck nonotice show ?thesis unfolding fc fw by simp
  next
    case scope
    have "\<exists>e\<in>set (es @ es2). deck_pipeline_event e"
      using scope(6) by (auto intro!: bexI[of _ "Reset_to_firmware t"])
    with nodeck scope(1-5) report_not_deck[OF scope(2)] show ?thesis unfolding fc fw by auto
  next
    case noscope
    with nodeck nonotice report_not_deck[OF noscope(2)] show ?thesis
      unfolding fc fw by auto
  qed
qed

theorem cold_boot_skips_decks_witness:
  "\<not> warm_booted (fst (snd cold_session)) \<and>
   snd (snd (flash 0 ex_cload ex_app ex_versions ex_types (fst (snd cold_session)) s5_bundle []
      None (fst cold_session))) = Some (Inr ()) \<and>
   Print cold_notice \<in> set (new_events (fst cold_session)
      (fst (flash 0 ex_cload ex_app ex_versions ex_types (fst (snd cold_session)) s5_bundle []
         None (fst cold_session)))) \<and>
   list_all (\<lambda>e. \<not> deck_pipeline_event e) (new_events (fst cold_session)
      (fst (flash 0 ex_cload ex_app ex_versions ex_types (fst (snd cold_session)) s5_bundle []
         None (fst cold_session)))) \<and>
   filter is_write_flash (new_events (fst cold_session)
      (fst (flash 0 ex_cload ex_app ex_versions ex_types (fst (snd cold_session)) s5_bundle []
         None (fst cold_session)))) = [Write_flash (addr s1_geometry) 0 16 1] \<and>
   list_ex deck_pipeline_event (new_events (fst cold_session)
      (fst (flash 0 ex_cload ex_app ex_versions ex_types
         ((fst (snd cold_session))\<lparr>warm_booted := True\<rparr>) s5_bundle [] None (fst cold_session)))) \<and>
   snd (snd (flash 0 ex_cload ex_app ex_versions ex_types (fst (snd cold_session)) s9_file
      [stm32_fw] None (fst cold_session))) = Some (Inr ()) \<and>
   list_all (\<lambda>e. e \<noteq> Print cold_notice) (new_events (fst cold_session)
      (fst (flash 0 ex_cload ex_app ex_versions ex_types (fst (snd cold_session)) s9_file
         [stm32_fw] None (fst cold_session))))"
proof -
  have c: "\<not> warm_booted (fst (snd cold_session))"
    by (simp add: cold_session_def start_bootloader_warm_booted)
  have s: "cold_session = ([Request_info_update 0xFE],
      ex_self\<lparr>warm_booted := False, protocol_version := 0x10\<rparr>, True)"
    by (simp add: cold_session_def start_bootloader_def enter_bootloader_def ex_cload_def
        ex_versions_def ex_types_def Let_def)
  have ok: "snd (snd (flash 0 ex_cload ex_app ex_versions ex_types (fst (snd cold_session))
      s5_bundle [] None (fst cold_session))) = Some (Inr ())"
    unfolding s
    by (simp add: ex_simps flash_simps s5_bundle_def lighthouse_fw_def)
  have w: "filter is_write_flash (new_events (fst cold_session)
      (fst (flash 0 ex_cload ex_app ex_versions ex_types (fst (snd cold_session)) s5_bundle []
         None (fst cold_session)))) = [Write_flash (addr s1_geometry) 0 16 1]"
    unfolding s
    by (simp add: ex_simps flash_simps s5_bundle_def lighthouse_fw_def)
  have ok2: "snd (snd (flash 0 ex_cload ex_app ex_versions ex_types (fst (snd cold_session))
      s9_file [stm32_fw] None (fst cold_session))) = Some (Inr ())"
    unfolding s
    by (simp add: ex_simps flash_simps s9_file_def)
  have t2: "[stm32_fw] \<noteq> []" "\<not> (\<exists>t\<in>set [stm32_fw]. platform t = ''deck'')"
    by (simp_all add: stm32_fw_def)
  from cold_boot_skips_decks[OF c, of "fst cold_session" 0 ex_cload ex_app ex_versions ex_types
      s5_bundle "[]" None] c ok w
    cold_boot_skips_decks[OF c, of "fst cold_session" 0 ex_cload ex_app ex_versions ex_types
      s9_file "[stm32_fw]" None] ok2 t2
  show ?thesis unfolding list_all_iff list_ex_iff by blast
qed

section \<open>Properties of the upgrade\<close>

text \<open>
  C9 asks that the percent values reported for an image never decrease, lie between 0
  and 100, and end at 100. \<open>_internal_flash\<close> adds \<open>100 * page_size / len(image)\<close>
  for each page it uploads, as many times as there are pages, and reports the truncated
  sum as it is. For an image of 1280 bytes in pages of 1024 bytes the values are
  0, 80, 160, 160, and \<open>flash\<close> then reports 100 after 160. Every intermediate value of
  this run is an integer, so the float arithmetic of the source gives the same values.
\<close>

theorem progress_exceeds_100:
  "snd (internal_flash ex_cload ex_types ex_self s9_artifact 1 1 []) = Inr () \<and>
   percents (new_events [] (fst (internal_flash ex_cload ex_types ex_self s9_artifact 1 1 []))) =
     [0, 80, 160, 160] \<and>
   snd (snd (flash 0 ex_cload ex_app ex_versions ex_types ex_self s9_file [stm32_fw] None [])) =
     Some (Inr ()) \<and>
   percents (new_events []
     (fst (flash 0 ex_cload ex_app ex_versions ex_types ex_self s9_file [stm32_fw] None []))) =
     [0, 80, 160, 160, 100]"
  by (simp add: ex_simps flash_simps s9_artifact_def s9_file_def percents_def py_int_def)

text \<open>
  C5 asks that with a non-empty list of targets only the artifacts whose full target is
  in the list are written. \<open>_flash_flash\<close> receives the list and does not use it:
  \<open>flash\<close> writes every artifact of the aircraft's platform. With the one target
  \<open>Target('cf2', 'stm32', 'fw')\<close> and a bundle of an STM32 and an NRF51 image, both
  are uploaded and written.
\<close>

theorem unselected_image_is_written:
  "nrf51_fw \<notin> set [stm32_fw] \<and>
   snd (snd (flash 0 ex_cload ex_app ex_versions ex_types ex_self two_image_bundle [stm32_fw]
     None [])) = Some (Inr ()) \<and>
   filter is_write_flash (new_events []
     (fst (flash 0 ex_cload ex_app ex_versions ex_types ex_self two_image_bundle [stm32_fw]
        None []))) =
     [Write_flash (addr s1_geometry) 0 16 1, Write_flash (addr nrf51_geometry) 0 88 1] \<and>
   filter is_upload (new_events []
     (fst (flash 0 ex_cload ex_app ex_versions ex_types ex_self two_image_bundle [stm32_fw]
        None []))) =
     [Upload_buffer (addr s1_geometry) 0 0 [1], Upload_buffer (addr nrf51_geometry) 0 0 [2]]"
  by (simp add: ex_simps flash_simps two_image_bundle_def py_slice_def py_slice_from_def)

text \<open>
  C6 asks that \<open>start_bootloader\<close> does not return success for a protocol version that
  is none of the three known ones. A cold start that finds a bootloader, probes it and
  reads the version \<open>0x42\<close> prints the note and returns \<open>True\<close>.
\<close>

theorem unsupported_protocol_returns_success:
  "cload_protocol_version probing_cload
       (fst (enter_bootloader probing_cload ex_types (ex_self\<lparr>warm_booted := False\<rparr>)
          False None [])) \<notin>
     {CF1_PROTO_VER_0 ex_versions, CF1_PROTO_VER_1 ex_versions, CF2_PROTO_VER ex_versions} \<and>
   start_bootloader probing_cload ex_versions ex_types ex_self False None [] =
     ([Scan_for_bootloader, Sleep 1, Open_bootloader_uri (Some ''radio://0/110/2M''),
       Check_link_and_get_info, Print ''Bootloader protocol 0x42 not supported!''],
      ex_self\<lparr>warm_booted := False, protocol_version := 0x42\<rparr>, True)"
  by (simp add: start_bootloader_def enter_bootloader_def probing_cload_def ex_versions_def
      ex_self_def Let_def msg_protocol_not_supported_def format_X_def hex_nat.simps)

text \<open>
  C6, as the code has it: when the bootloader was entered and the protocol version is none
  of the three known ones, \<open>start_bootloader\<close> stores the version, prints
  \<open>Bootloader protocol 0x.. not supported!\<close>, requests no info update and returns
  \<open>True\<close>.
\<close>

theorem unsupported_protocol_printed:
  assumes "enter_bootloader cload tt (self\<lparr>warm_booted := warm_boot\<rparr>) warm_boot cf h = (h1, True)"
    and "cload_protocol_version cload h1 \<notin>
           {CF1_PROTO_VER_0 bv, CF1_PROTO_VER_1 bv, CF2_PROTO_VER bv}"
  shows "start_bootloader cload bv tt self warm_boot cf h =
     (h1 @ [Print (msg_protocol_not_supported (cload_protocol_version cload h1))],
      self\<lparr>warm_booted := warm_boot, protocol_version := cload_protocol_version cload h1\<rparr>,
      True)"
  using assms by (simp add: start_bootloader_def Let_def)

theorem unsupported_protocol_printed_witness:
  "enter_bootloader probing_cload ex_types (ex_self\<lparr>warm_booted := False\<rparr>) False None [] =
     ([Scan_for_bootloader, Sleep 1, Open_bootloader_uri (Some ''radio://0/110/2M''),
       Check_link_and_get_info], True) \<and>
   start_bootloader probing_cload ex_versions ex_types ex_self False None [] =
     ([Scan_for_bootloader, Sleep 1, Open_bootloader_uri (Some ''radio://0/110/2M''),
       Check_link_and_get_info, Print (msg_protocol_not_supported 0x42)],
      ex_self\<lparr>warm_booted := False, protocol_version := 0x42\<rparr>, True)"
proof -
  have e: "enter_bootloader probing_cload ex_types (ex_self\<lparr>warm_booted := False\<rparr>) False None [] =
     ([Scan_for_bootloader, Sleep 1, Open_bootloader_uri (Some ''radio://0/110/2M''),
       Check_link_and_get_info], True)"
    by (simp add: enter_bootloader_def probing_cload_def Let_def)
  have v: "cload_protocol_version probing_cload
      [Scan_for_bootloader, Sleep 1, Open_bootloader_uri (Some ''radio://0/110/2M''),
       Check_link_and_get_info] \<notin>
     {CF1_PROTO_VER_0 ex_versions, CF1_PROTO_VER_1 ex_versions, CF2_PROTO_VER ex_versions}"
    by (simp add: probing_cload_def ex_versions_def)
  from unsupported_protocol_printed[OF e v] e show ?thesis
    by (simp add: probing_cload_def)
qed

lemma uploaded_simps [simp]:
  "uploaded [] = []" "uploaded (e # es) = payload e @ uploaded es"
  "uploaded (xs @ ys) = uploaded xs @ uploaded ys"
  by (simp_all add: uploaded_def)















text \<open>
  C10 asks that \<open>flash\<close> with one target of a foreign platform returns normally. With a
  bundle whose manifest has version 2 the bundle reader raises
  \<open>Wrong manifest version\<close>, whatever the targets are.
\<close>

theorem foreign_target_bad_bundle_fails:
  "platform cf1_fw \<noteq> get_platform_id ex_versions ex_self \<and>
   platform cf1_fw \<noteq> ''deck'' \<and>
   flash 0 ex_cload ex_app ex_versions ex_types ex_self s6_bundle [cf1_fw] None [] =
     ([], ex_self, Some (Inl (Exception ''Wrong manifest version'')))"
  by (simp add: flash_simps s6_bundle_def cf1_fw_def ex_self_def)

text \<open>
  C10, as the code has it: with exactly one target, whose platform is neither the
  aircraft's nor \<open>deck\<close>, \<open>flash\<close> either fails in fetching the artifacts, having
  done nothing, or returns normally having done one thing: the call of the progress
  callback with \<open>Flashing done! Deck update skipped.\<close> and 100, or the printing of an
  empty line when no callback is installed. There is no upload, no write and no deck
  event in either case.
\<close>

theorem foreign_target_noop:
  assumes "targets = [t]"
    and "platform t \<noteq> get_platform_id bv self"
    and "platform t \<noteq> ''deck''"
  shows "flash n cload app bv tt self filename targets cf h =
     (case fetch_artifacts filename targets of
        Inl e \<Rightarrow> (h, self, Some (Inl e))
      | Inr artifacts \<Rightarrow>
          (h @ [if progress_cb self
                then Progress_cb
                       (msg_flashing_done
                          (int (length (filter
                             (\<lambda>a. platform (target_of a) = get_platform_id bv self) artifacts)))
                          ''Deck update skipped.'') 100
                else Print ''''],
           self, Some (Inr ())))"
  using assms
  by (simp add: flash_def flash_with_artifacts_def update_decks_def Let_def split: sum.splits)

theorem foreign_target_noop_witness:
  "platform cf1_fw \<noteq> get_platform_id ex_versions ex_self \<and>
   platform cf1_fw \<noteq> ''deck'' \<and>
   fetch_artifacts s9_file [cf1_fw] = Inr [\<lparr>content = replicate 1280 0, target_of = cf1_fw\<rparr>] \<and>
   flash 0 ex_cload ex_app ex_versions ex_types ex_self s9_file [cf1_fw] None [] =
     ([Progress_cb ''(0/0) Flashing done! Deck update skipped.'' 100], ex_self, Some (Inr ()))"
proof -
  have p: "platform cf1_fw \<noteq> get_platform_id ex_versions ex_self"
    by (simp add: cf1_fw_def get_platform_id_def is_cf2_def ex_versions_def ex_self_def)
  have d: "platform cf1_fw \<noteq> ''deck''" by (simp add: cf1_fw_def)
  have f: "fetch_artifacts s9_file [cf1_fw] = Inr [\<lparr>content = replicate 1280 0, target_of = cf1_fw\<rparr>]"
    by (simp add: fetch_artifacts_def get_flash_artifacts_from_zip_def s9_file_def)
  from foreign_target_noop[OF refl p d, of 0 ex_cload ex_app ex_types s9_file None "[]"] p d f
  show ?thesis
    by (simp add: msg_flashing_done_def str_int_def str_nat.simps ex_self_def cf1_fw_def
        get_platform_id_def is_cf2_def ex_versions_def)
qed

end
